theory Spec2Isabelle
  imports Complex_Main "HOL-Library.Word"
begin

section \<open>Arrays and the primitives of the array engine\<close>

text \<open>
  TheanoUtil.py composes primitives of an array engine. An array is modelled by its shape
  and its elements in row-major (C) order, which is the order \<open>reshape\<close> and
  \<open>flatten\<close> of the engine read and write. Failures of the Python code (a failed
  \<open>assert\<close>, an exception of the engine) are values of the type \<open>error\<close>; a
  function that can fail returns \<open>error + result\<close> with \<open>Inl\<close> for the failure.
\<close>

datatype error =
    AssertionError string
  | ValueError
  | IndexError
  | ZeroDivisionError

datatype 'a ndarray = NDArray (shape: "nat list") (data: "'a list")

definition ndim :: "'a ndarray \<Rightarrow> nat" where
  "ndim a = length (shape a)"

text \<open>An array is well formed when it holds as many elements as its shape says.\<close>

definition wf :: "'a ndarray \<Rightarrow> bool" where
  "wf a = (length (data a) = prod_list (shape a))"

definition bind_err :: "error + 'a \<Rightarrow> ('a \<Rightarrow> error + 'b) \<Rightarrow> error + 'b" where
  "bind_err m f = (case m of Inl e \<Rightarrow> Inl e | Inr x \<Rightarrow> f x)"

text \<open>
  \<open>reshape\<close>: the elements stay in row-major order and the shape changes. One entry of
  the new shape may be \<open>-1\<close>; it is inferred from the number of elements. Any other
  negative entry, a second \<open>-1\<close>, or a shape of another size is a ValueError.
\<close>

definition reshape :: "'a ndarray \<Rightarrow> int list \<Rightarrow> error + 'a ndarray" where
  "reshape a ns =
     (let sz = int (length (data a));
          known = filter (\<lambda>n. n \<noteq> - 1) ns;
          p = prod_list known
      in if list_ex (\<lambda>n. n < - 1) ns \<or> length known + 1 < length ns then Inl ValueError
         else if length known < length ns then
           (if p = 0 \<or> sz mod p \<noteq> 0 then Inl ValueError
            else Inr (NDArray (map (\<lambda>n. nat (if n = - 1 then sz div p else n)) ns) (data a)))
         else if p = sz then Inr (NDArray (map nat ns) (data a))
         else Inl ValueError)"

subsection \<open>Axes, gathering along an axis, slices\<close>

text \<open>
  Along axis \<open>k\<close> an array of shape \<open>s\<close> is \<open>outer_size s k\<close> blocks, each of
  \<open>s ! k\<close> runs of \<open>inner_size s k\<close> consecutive elements. \<open>take_axis a k idxs\<close>
  gathers, in every block, the runs at the positions \<open>idxs\<close> (the engine's \<open>take\<close> along an
  axis); slicing and \<open>repeat\<close> along an axis are instances of it.
\<close>

definition outer_size :: "nat list \<Rightarrow> nat \<Rightarrow> nat" where
  "outer_size s k = prod_list (take k s)"

definition inner_size :: "nat list \<Rightarrow> nat \<Rightarrow> nat" where
  "inner_size s k = prod_list (drop (Suc k) s)"

definition take_axis :: "'a ndarray \<Rightarrow> nat \<Rightarrow> nat list \<Rightarrow> 'a ndarray" where
  "take_axis a k idxs =
     (let s = shape a; n = s ! k; inner = inner_size s k
      in NDArray (s[k := length idxs])
           (concat (map (\<lambda>blk. concat (map (\<lambda>i. take inner (drop ((blk * n + i) * inner) (data a))) idxs))
              [0..<outer_size s k])))"

text \<open>
  A Python slice \<open>start:stop:step\<close>, each part optional. \<open>slice_indices\<close> lists the
  positions a slice selects on an axis of length \<open>len\<close>, as Python's
  \<open>slice.indices\<close> does: a negative bound counts from the end, bounds are clamped to the
  axis, and a step of 0 is a ValueError.
\<close>

datatype slice = Slice (slice_start: "int option") (slice_stop: "int option") (slice_step: "int option")

definition slice_indices :: "slice \<Rightarrow> nat \<Rightarrow> error + nat list" where
  "slice_indices sl len =
     (let n = int len; st = (case slice_step sl of None \<Rightarrow> 1 | Some k \<Rightarrow> k)
      in if st = 0 then Inl ValueError
         else
           let lo = (if st < 0 then - 1 else 0);
               hi = (if st < 0 then n - 1 else n);
               adjust = (\<lambda>i. if i < 0 then (if i + n < 0 then lo else i + n)
                              else if i \<ge> n then hi else i);
               b = (case slice_start sl of None \<Rightarrow> (if st < 0 then hi else lo) | Some i \<Rightarrow> adjust i);
               e = (case slice_stop sl of None \<Rightarrow> (if st < 0 then lo else hi) | Some i \<Rightarrow> adjust i);
               cnt = (if st > 0 then (if b < e then (e - b - 1) div st + 1 else 0)
                      else (if e < b then (b - e - 1) div (- st) + 1 else 0))
           in Inr (map (\<lambda>j. nat (b + int j * st)) [0..<nat cnt]))"

text \<open>
  \<open>a[sl0, sl1, ...]\<close> with a tuple of slices: the slice at position \<open>k\<close> of the tuple
  is applied to axis \<open>k\<close>; more slices than axes is an IndexError.
\<close>

fun getitem_from :: "nat \<Rightarrow> 'a ndarray \<Rightarrow> slice list \<Rightarrow> error + 'a ndarray" where
  "getitem_from k a [] = Inr a"
| "getitem_from k a (sl # sls) =
     (if k \<ge> ndim a then Inl IndexError
      else bind_err (slice_indices sl (shape a ! k))
             (\<lambda>idxs. getitem_from (Suc k) (take_axis a k idxs) sls))"

definition getitem :: "'a ndarray \<Rightarrow> slice list \<Rightarrow> error + 'a ndarray" where
  "getitem a sls = getitem_from 0 a sls"

subsection \<open>zeros, concatenate, repeat, reductions\<close>

definition zeros :: "int list \<Rightarrow> error + 'a::zero ndarray" where
  "zeros s =
     (if list_ex (\<lambda>n. n < 0) s then Inl ValueError
      else Inr (NDArray (map nat s) (replicate (prod_list (map nat s)) 0)))"

text \<open>
  \<open>concatenate\<close> along an axis: the arrays must have the same number of dimensions and
  agree on every other axis.
\<close>

definition concatenate :: "'a ndarray list \<Rightarrow> nat \<Rightarrow> error + 'a ndarray" where
  "concatenate arrs axis =
     (case arrs of
        [] \<Rightarrow> Inl ValueError
      | a # rest \<Rightarrow>
          if axis \<ge> ndim a then Inl IndexError
          else if list_ex (\<lambda>b. ndim b \<noteq> ndim a
                     \<or> list_ex (\<lambda>i. i \<noteq> axis \<and> shape b ! i \<noteq> shape a ! i) [0..<ndim a]) rest
               then Inl ValueError
          else
            let s = shape a; inner = inner_size s axis
            in Inr (NDArray (s[axis := sum_list (map (\<lambda>b. shape b ! axis) arrs)])
                 (concat (map (\<lambda>blk. concat (map (\<lambda>b. let m = shape b ! axis * inner
                                                     in take m (drop (blk * m) (data b))) arrs))
                    [0..<outer_size s axis]))))"

text \<open>\<open>repeat a r axis\<close>: every run along the axis is repeated \<open>r\<close> times in place.\<close>

definition repeat :: "'a ndarray \<Rightarrow> int \<Rightarrow> nat \<Rightarrow> error + 'a ndarray" where
  "repeat a r axis =
     (if axis \<ge> ndim a then Inl IndexError
      else if r < 0 then Inl ValueError
      else Inr (take_axis a axis (concat (map (\<lambda>i. replicate (nat r) i) [0..<shape a ! axis]))))"

definition reduce_axis :: "('a list \<Rightarrow> 'b) \<Rightarrow> 'a ndarray \<Rightarrow> nat \<Rightarrow> 'b ndarray" where
  "reduce_axis f a axis =
     (let s = shape a; n = s ! axis; inner = inner_size s axis
      in NDArray (take axis s @ drop (Suc axis) s)
           (concat (map (\<lambda>blk. map (\<lambda>j. f (map (\<lambda>i. data a ! ((blk * n + i) * inner + j)) [0..<n]))
                              [0..<inner])
              [0..<outer_size s axis])))"

definition mean_list :: "'a::field list \<Rightarrow> 'a" where
  "mean_list xs = sum_list xs / of_nat (length xs)"

fun max_list :: "'a::linorder list \<Rightarrow> 'a" where
  "max_list (x # xs) = fold max xs x"
| "max_list [] = undefined"

fun min_list :: "'a::linorder list \<Rightarrow> 'a" where
  "min_list (x # xs) = fold min xs x"
| "min_list [] = undefined"

text \<open>
  The reductions of the engine along an axis. The mean of an empty axis is not a number and
  the maximum or minimum of an empty axis is an error of the engine; all three are returned
  as ValueError here, so \<open>mean_list\<close>, \<open>max_list\<close> and \<open>min_list\<close> are only applied to
  non-empty lists.
\<close>

definition T_mean :: "'a::field ndarray \<Rightarrow> nat \<Rightarrow> error + 'a ndarray" where
  "T_mean a axis =
     (if axis \<ge> ndim a then Inl IndexError
      else if shape a ! axis = 0 then Inl ValueError
      else Inr (reduce_axis mean_list a axis))"

definition T_max :: "'a::linorder ndarray \<Rightarrow> nat \<Rightarrow> error + 'a ndarray" where
  "T_max a axis =
     (if axis \<ge> ndim a then Inl IndexError
      else if shape a ! axis = 0 then Inl ValueError
      else Inr (reduce_axis max_list a axis))"

definition T_min :: "'a::linorder ndarray \<Rightarrow> nat \<Rightarrow> error + 'a ndarray" where
  "T_min a axis =
     (if axis \<ge> ndim a then Inl IndexError
      else if shape a ! axis = 0 then Inl ValueError
      else Inr (reduce_axis min_list a axis))"

subsection \<open>Multi-indices, tile, dimshuffle, flatten\<close>

fun unravel :: "nat list \<Rightarrow> nat \<Rightarrow> nat list" where
  "unravel [] k = []"
| "unravel (n # ns) k = (k div prod_list ns) # unravel ns (k mod prod_list ns)"

fun ravel :: "nat list \<Rightarrow> nat list \<Rightarrow> nat" where
  "ravel (n # ns) (i # js) = i * prod_list ns + ravel ns js"
| "ravel [] js = 0"
| "ravel ns [] = 0"

fun index_of :: "'a list \<Rightarrow> 'a \<Rightarrow> nat" where
  "index_of [] q = 0"
| "index_of (p # ps) q = (if p = q then 0 else Suc (index_of ps q))"

text \<open>
  \<open>tile a reps\<close> with one repetition count per axis (the engine refuses a list of another
  length): the element at multi-index \<open>j\<close> of the result is the element of \<open>a\<close> at
  \<open>j\<close> reduced modulo the shape of \<open>a\<close>.
\<close>

definition tile :: "'a ndarray \<Rightarrow> int list \<Rightarrow> error + 'a ndarray" where
  "tile a reps =
     (if length reps \<noteq> ndim a \<or> list_ex (\<lambda>r. r < 0) reps then Inl ValueError
      else
        let s = shape a; ns = map (\<lambda>(n, r). n * nat r) (zip s reps)
        in Inr (NDArray ns
             (map (\<lambda>k. data a ! ravel s (map (\<lambda>(j, n). j mod n) (zip (unravel ns k) s)))
                [0..<prod_list ns])))"

text \<open>
  \<open>dimshuffle a perm\<close> with a permutation of the axes: axis \<open>m\<close> of the result is axis
  \<open>perm ! m\<close> of \<open>a\<close>.
\<close>

definition dimshuffle :: "'a ndarray \<Rightarrow> nat list \<Rightarrow> error + 'a ndarray" where
  "dimshuffle a perm =
     (if sort perm \<noteq> [0..<ndim a] then Inl ValueError
      else
        let s = shape a; ns = map (\<lambda>p. s ! p) perm
        in Inr (NDArray ns
             (map (\<lambda>k. let j = unravel ns k
                        in data a ! ravel s (map (\<lambda>q. j ! index_of perm q) [0..<ndim a]))
                [0..<prod_list ns])))"

definition flatten :: "'a ndarray \<Rightarrow> 'a ndarray" where
  "flatten a = NDArray [length (data a)] (data a)"

subsection \<open>Casts, the identity matrix, indexing by an index array\<close>

text \<open>A cast to int32 keeps the low 32 bits, read in two's complement.\<close>

definition cast_int32 :: "int \<Rightarrow> int" where
  "cast_int32 x = sint (word_of_int x :: 32 word)"




text \<open>Python's \<open>int(x)\<close> of a number: truncation towards zero.\<close>

definition py_int :: "real \<Rightarrow> int" where
  "py_int x = (if x \<ge> 0 then \<lfloor>x\<rfloor> else \<lceil>x\<rceil>)"

section \<open>time_batch_make_flat\<close>

text \<open>
  \<^verbatim>\<open>assert val.ndim > 1\<close>, then a reshape to
  \<^verbatim>\<open>[shape[0] * shape[1]] + [shape[i] for i in range(2, ndim)]\<close>.
\<close>

definition time_batch_make_flat :: "'a ndarray \<Rightarrow> error + 'a ndarray" where
  "time_batch_make_flat val =
     (if \<not> ndim val > 1 then Inl (AssertionError '''')
      else
        let s0 = shape val ! 0 * shape val ! 1;
            newshape = [s0] @ map (\<lambda>i. shape val ! i) [2..<ndim val]
        in reshape val (map int newshape))"

section \<open>GradDiscardOutOfBound\<close>

text \<open>
  The operator keeps the two bounds; its constructor asserts
  \<open>lower_bound \<le> upper_bound\<close>. The class derives from the engine's ViewOp, whose
  forward computation hands its input on as its output; \<open>perform\<close> is that inherited
  forward pass. \<open>grad\<close> is the method of the class: for each backward-flowing gradient
  array, elementwise, \<open>switch (lt g lower_bound or gt g upper_bound) 0 g\<close>.
\<close>

record 'a GradDiscardOutOfBound =
  lower_bound :: 'a
  upper_bound :: 'a

definition GradDiscardOutOfBound_init ::
  "'a::linorder \<Rightarrow> 'a \<Rightarrow> error + 'a GradDiscardOutOfBound" where
  "GradDiscardOutOfBound_init lb ub =
     (if lb \<le> ub then Inr \<lparr>lower_bound = lb, upper_bound = ub\<rparr>
      else Inl (AssertionError ''''))"

definition perform :: "'a GradDiscardOutOfBound \<Rightarrow> 'a ndarray \<Rightarrow> 'a ndarray" where
  "perform self x = x"

definition lt :: "'a::linorder ndarray \<Rightarrow> 'a \<Rightarrow> bool ndarray" where
  "lt g c = NDArray (shape g) (map (\<lambda>v. v < c) (data g))"

definition gt :: "'a::linorder ndarray \<Rightarrow> 'a \<Rightarrow> bool ndarray" where
  "gt g c = NDArray (shape g) (map (\<lambda>v. v > c) (data g))"

definition tensor_or :: "bool ndarray \<Rightarrow> bool ndarray \<Rightarrow> bool ndarray" where
  "tensor_or p q = NDArray (shape p) (map (\<lambda>(x, y). x \<or> y) (zip (data p) (data q)))"

definition switch :: "bool ndarray \<Rightarrow> 'a \<Rightarrow> 'a ndarray \<Rightarrow> 'a ndarray" where
  "switch c t e = NDArray (shape e) (map (\<lambda>(b, v). if b then t else v) (zip (data c) (data e)))"

definition grad ::
  "('a::{linorder,zero}) GradDiscardOutOfBound \<Rightarrow> 'a ndarray list \<Rightarrow> 'a ndarray list \<Rightarrow> 'a ndarray list" where
  "grad self args g_outs =
     map (\<lambda>g_out. switch (tensor_or (lt g_out (lower_bound self)) (gt g_out (upper_bound self))) 0 g_out)
       g_outs"

definition grad_discard_out_of_bound ::
  "'a::linorder ndarray \<Rightarrow> 'a \<Rightarrow> 'a \<Rightarrow> error + 'a ndarray" where
  "grad_discard_out_of_bound x lb ub =
     bind_err (GradDiscardOutOfBound_init lb ub) (\<lambda>self. Inr (perform self x))"

section \<open>class_idx_seq_to_1_of_k\<close>


section \<open>windowed_batch\<close>

text \<open>
  The window is a Python integer; \<open>window / 2\<close> is Python 2's integer division, which
  rounds down as \<open>div\<close> does. Every line of the function is one step below.
\<close>

definition windowed_batch :: "'a::zero ndarray \<Rightarrow> int \<Rightarrow> error + 'a ndarray" where
  "windowed_batch source window =
     (if ndim source \<noteq> 3 then Inl (AssertionError '''')
      else
        let n_time = int (shape source ! 0);
            n_batch = int (shape source ! 1);
            n_dim = int (shape source ! 2);
            w_right = window div 2;
            w_left = window - w_right - 1
        in bind_err (zeros [w_left, n_batch, n_dim]) (\<lambda>pad_left.
           bind_err (zeros [w_right, n_batch, n_dim]) (\<lambda>pad_right.
           bind_err (concatenate [pad_left, source, pad_right] 0) (\<lambda>padded.
           bind_err (tile padded [1, 1, window]) (\<lambda>tiled.
           bind_err (reshape tiled [n_time + window - 1, n_batch, window, n_dim]) (\<lambda>tiled_reshape.
           bind_err (dimshuffle tiled_reshape [2, 0, 1, 3]) (\<lambda>tiled_dimshuffle.
           let tiled_flat = flatten tiled_dimshuffle;
               rem = n_batch * n_dim * window
           in bind_err (zeros [rem]) (\<lambda>z.
              bind_err (concatenate [tiled_flat, z] 0) (\<lambda>tiled_flat_pad_right.
              bind_err (reshape tiled_flat_pad_right [window, n_time + window, n_batch, n_dim])
                (\<lambda>tiled_reshape_shift.
              bind_err (dimshuffle tiled_reshape_shift [1, 2, 0, 3]) (\<lambda>final_dimshuffle.
              bind_err (getitem final_dimshuffle [Slice None (Some n_time) None]) (\<lambda>final_sub.
                reshape final_sub [n_time, n_batch, window * n_dim]))))))))))))"

section \<open>slice_for_axis, pad, downsample, upsample\<close>

text \<open>
  \<^verbatim>\<open>(slice(None),) * (axis - 1) + (s,)\<close>: a Python tuple multiplied by a number that is
  not positive is the empty tuple, hence \<open>nat (axis - 1)\<close> copies of the full slice.
\<close>

definition slice_for_axis :: "int \<Rightarrow> slice \<Rightarrow> slice list" where
  "slice_for_axis axis s = replicate (nat (axis - 1)) (Slice None None None) @ [s]"

text \<open>
  The axis of \<open>pad\<close>, \<open>downsample\<close> and \<open>upsample\<close> is an index in \<open>[0, ndim)\<close>,
  a natural number here; reading \<open>shape[axis]\<close> beyond the last axis is an IndexError.
  The default \<open>pad_value\<close> (\<open>None\<close>) is an array of zeros with length 1 along the axis.
  \<open>pad_target\<close> is the function up to and including its \<open>concatenate\<close> statement;
  \<open>pad\<close> ends with the slicing statement on that target.
\<close>

definition pad_target ::
  "'a::zero ndarray \<Rightarrow> nat \<Rightarrow> int \<Rightarrow> 'a ndarray option \<Rightarrow> error + 'a ndarray" where
  "pad_target source axis target_axis_len pad_value =
     bind_err (case pad_value of
                 Some v \<Rightarrow> Inr v
               | None \<Rightarrow> zeros (map (\<lambda>i. if i \<noteq> axis then int (shape source ! i) else 1)
                                 [0..<ndim source]))
       (\<lambda>pad_value.
          if axis \<ge> ndim source then Inl IndexError
          else
            let num_missing = cast_int32 target_axis_len - int (shape source ! axis);
                num_missing = max num_missing 1
            in bind_err (repeat pad_value num_missing axis) (\<lambda>padding.
                 concatenate [source, padding] axis))"

definition pad ::
  "'a::zero ndarray \<Rightarrow> nat \<Rightarrow> int \<Rightarrow> 'a ndarray option \<Rightarrow> error + 'a ndarray" where
  "pad source axis target_axis_len pad_value =
     bind_err (pad_target source axis target_axis_len pad_value) (\<lambda>target.
       getitem target (slice_for_axis (int axis) (Slice (Some 0) (Some target_axis_len) None)))"

text \<open>
  \<open>downsample\<close>: the factor is a number, asserted to be integral and then truncated to an
  integer. \<open>shape[axis] / factor\<close> is integer division; by zero it is a
  ZeroDivisionError. \<open>downsample_reduce\<close> is the part of the function after its first
  slicing statement.
\<close>

definition downsample_reduce ::
  "'a::linordered_field ndarray \<Rightarrow> nat \<Rightarrow> int \<Rightarrow> string \<Rightarrow> error + 'a ndarray" where
  "downsample_reduce source axis factor method =
     (let added_dim_shape = map (\<lambda>i. int (shape source ! i)) [0..<ndim source];
          added_dim_shape = take axis added_dim_shape
                              @ [int (shape source ! axis) div factor, factor]
                              @ drop (axis + 1) added_dim_shape
      in bind_err (reshape source added_dim_shape) (\<lambda>source.
           if method = ''average'' then T_mean source (axis + 1)
           else if method = ''max'' then T_max source (axis + 1)
           else if method = ''min'' then T_min source (axis + 1)
           else Inl (AssertionError ''unknown downsample method'')))"

definition downsample ::
  "'a::linordered_field ndarray \<Rightarrow> nat \<Rightarrow> real \<Rightarrow> string \<Rightarrow> error + 'a ndarray" where
  "downsample source axis factor method =
     (if factor \<noteq> of_int (py_int factor) then Inl (AssertionError ''factor is expected to be an int'')
      else
        let factor = py_int factor
        in if axis \<ge> ndim source then Inl IndexError
           else if factor = 0 then Inl ZeroDivisionError
           else bind_err
                  (getitem source
                     (slice_for_axis (int axis)
                        (Slice (Some 0) (Some ((int (shape source ! axis) div factor) * factor)) None)))
                  (\<lambda>source. downsample_reduce source axis factor method))"

definition upsample ::
  "'a::zero ndarray \<Rightarrow> nat \<Rightarrow> real \<Rightarrow> string \<Rightarrow> int option \<Rightarrow> error + 'a ndarray" where
  "upsample source axis factor method target_axis_len =
     (if method = ''nearest-neighbor'' then
        if factor \<noteq> of_int (py_int factor) then Inl (AssertionError ''factor is expected to be an int'')
        else
          let factor = py_int factor
          in bind_err (repeat source factor axis) (\<lambda>target.
               case target_axis_len of
                 None \<Rightarrow> Inr target
               | Some len \<Rightarrow>
                   bind_err (getitem source (slice_for_axis (int axis) (Slice (Some (- 1)) None None)))
                     (\<lambda>last. pad target axis len (Some last)))
      else Inl (AssertionError ''unknown upsample method''))"

section \<open>chunked_time_reverse\<close>

definition chunked_time_reverse :: "'a::zero ndarray \<Rightarrow> int \<Rightarrow> error + 'a ndarray" where
  "chunked_time_reverse source chunk_size =
     (let chunk_size = cast_int32 chunk_size
      in if ndim source = 0 then Inl IndexError
         else if chunk_size = 0 then Inl ZeroDivisionError
         else
           let n_time = int (shape source ! 0);
               num_chunks = (n_time + chunk_size - 1) div chunk_size;
               needed_time = num_chunks * chunk_size;
               remaining_dims = map (\<lambda>i. int (shape source ! (i + 1))) [0..<ndim source - 1]
           in bind_err (pad source 0 needed_time None) (\<lambda>padded_source.
              bind_err (reshape padded_source ([num_chunks, chunk_size] @ remaining_dims)) (\<lambda>reshaped.
              bind_err (getitem reshaped [Slice None None None, Slice None None (Some (- 1))])
                (\<lambda>reshaped_rev.
              bind_err (reshape reshaped_rev ([needed_time] @ remaining_dims)) (\<lambda>rev_correct_ndim.
                getitem rev_correct_ndim [Slice None (Some n_time) None])))))"

section \<open>Notions used to state the properties\<close>

text \<open>\<open>slice_axis a k s\<close>: the slice \<open>s\<close> applied to axis \<open>k\<close> of \<open>a\<close> and to no other.\<close>

definition slice_axis :: "'a ndarray \<Rightarrow> nat \<Rightarrow> slice \<Rightarrow> error + 'a ndarray" where
  "slice_axis a k s =
     (if k \<ge> ndim a then Inl IndexError
      else bind_err (slice_indices s (shape a ! k)) (\<lambda>idxs. Inr (take_axis a k idxs)))"


definition onehot :: "nat \<Rightarrow> nat \<Rightarrow> 'a::{zero,one} list" where
  "onehot K c = map (\<lambda>j. if c = j then 1 else 0) [0..<K]"

text \<open>
  The rows of an array along its leading (time) axis, and the chunked reversal as the
  specification describes it: pad the rows with zero rows up to the next multiple of the
  chunk size, cut into chunks, reverse each chunk, and keep the first rows again.
\<close>

definition time_rows :: "'a ndarray \<Rightarrow> 'a list list" where
  "time_rows a =
     (let R = prod_list (tl (shape a))
      in map (\<lambda>t. take R (drop (t * R) (data a))) [0..<hd (shape a)])"

definition chunked_time_reverse_spec :: "'a::zero ndarray \<Rightarrow> nat \<Rightarrow> 'a ndarray" where
  "chunked_time_reverse_spec a C =
     (let T = hd (shape a);
          R = prod_list (tl (shape a));
          num_chunks = (T + C - 1) div C;
          padded = time_rows a @ replicate (num_chunks * C - T) (replicate R 0);
          chunks = map (\<lambda>k. take C (drop (k * C) padded)) [0..<num_chunks];
          reversed = concat (map rev chunks)
      in NDArray (shape a) (concat (take T reversed)))"

section \<open>Properties\<close>

subsection \<open>Blocks, slices and well-formedness\<close>

lemma bind_err_Inr [simp]: "bind_err (Inr x) f = f x"
  by (simp add: bind_err_def)

lemma bind_err_Inl [simp]: "bind_err (Inl e) f = Inl e"
  by (simp add: bind_err_def)

lemma concat_take_drop_chunks:
  "concat (map (\<lambda>i. take L (drop (i * L) d)) [0..<m]) = take (m * L) d"
proof (induction m)
  case 0
  show ?case by simp
next
  case (Suc m)
  have "take (m * L) d @ take L (drop (m * L) d) = take (m * L + L) d"
    by (simp add: take_add)
  with Suc show ?case by (simp add: add.commute)
qed

lemma concat_take_drop_chunks_from:
  "concat (map (\<lambda>i. take L (drop ((c + i) * L) d)) [0..<m]) = take (m * L) (drop (c * L) d)"
proof -
  have "(\<lambda>i. take L (drop ((c + i) * L) d)) = (\<lambda>i. take L (drop (i * L) (drop (c * L) d)))"
    by (auto simp: add_mult_distrib add.commute)
  then show ?thesis
    using concat_take_drop_chunks [of L "drop (c * L) d" m] by simp
qed

lemma prod_list_split:
  assumes "k < length s"
  shows "prod_list s = prod_list (take k s) * (s ! k * prod_list (drop (Suc k) s))"
proof -
  have "s = take k s @ s ! k # drop (Suc k) s"
    using assms by (rule id_take_nth_drop)
  then have "prod_list s = prod_list (take k s @ s ! k # drop (Suc k) s)"
    by simp
  then show ?thesis by simp
qed

lemma wf_length:
  assumes "wf a" "k < ndim a"
  shows "length (data a) = outer_size (shape a) k * (shape a ! k * inner_size (shape a) k)"
  using assms prod_list_split [of k "shape a"]
  by (simp add: wf_def ndim_def outer_size_def inner_size_def)

lemma take_axis_all:
  assumes "wf a" "k < ndim a"
  shows "take_axis a k [0..<shape a ! k] = a"
proof -
  let ?n = "shape a ! k" and ?L = "inner_size (shape a) k" and ?m = "outer_size (shape a) k"
  have inner: "\<And>blk. concat (map (\<lambda>i. take ?L (drop ((blk * ?n + i) * ?L) (data a))) [0..<?n])
      = take (?n * ?L) (drop (blk * (?n * ?L)) (data a))"
    using concat_take_drop_chunks_from [of ?L _ "data a" ?n] by (simp add: mult.assoc)
  have "concat (map (\<lambda>blk. concat (map (\<lambda>i. take ?L (drop ((blk * ?n + i) * ?L) (data a))) [0..<?n])) [0..<?m])
      = take (?m * (?n * ?L)) (data a)"
    unfolding inner by (rule concat_take_drop_chunks)
  also have "\<dots> = data a"
    using wf_length [OF assms] by simp
  finally have d: "data (take_axis a k [0..<?n]) = data a"
    by (simp add: take_axis_def Let_def)
  have s: "shape (take_axis a k [0..<?n]) = shape a"
    by (simp add: take_axis_def Let_def)
  show ?thesis using d s by (cases a) (simp add: ndarray.expand)
qed

lemma slice_indices_all: "slice_indices (Slice None None None) n = Inr [0..<n]"
proof -
  have "map (\<lambda>j. nat (int j)) [0..<n] = [0..<n]"
    by (simp add: list_eq_iff_nth_eq)
  then show ?thesis
    by (simp add: slice_indices_def Let_def)
qed

lemma getitem_from_full:
  assumes "wf a" "k + m \<le> ndim a"
  shows "getitem_from k a (replicate m (Slice None None None) @ sls) = getitem_from (k + m) a sls"
  using assms
proof (induction m arbitrary: k)
  case 0
  then show ?case by simp
next
  case (Suc m)
  then have k: "k < ndim a" by simp
  have "getitem_from k a (replicate (Suc m) (Slice None None None) @ sls)
      = getitem_from (Suc k) a (replicate m (Slice None None None) @ sls)"
    using k take_axis_all [OF Suc.prems(1) k] by (simp add: slice_indices_all)
  also have "\<dots> = getitem_from (Suc k + m) a sls"
    using Suc.IH [of "Suc k"] Suc.prems by simp
  finally show ?case by simp
qed

lemma getitem_from_single: "getitem_from k a [s] = slice_axis a k s"
  by (simp add: slice_axis_def bind_err_def split: sum.splits)

lemma getitem_slice_for_axis:
  assumes "wf a" "axis \<le> ndim a"
  shows "getitem a (slice_for_axis (int axis) s) = slice_axis a (axis - 1) s"
proof -
  have n: "nat (int axis - 1) = axis - 1" by simp
  have "getitem_from 0 a (replicate (axis - 1) (Slice None None None) @ [s])
      = getitem_from (0 + (axis - 1)) a [s]"
    using assms by (intro getitem_from_full) auto
  then show ?thesis
    unfolding getitem_def slice_for_axis_def n getitem_from_single by simp
qed


lemma slice_for_axis_zero: "slice_for_axis 0 s = [s]"
  by (simp add: slice_for_axis_def)

lemma shape_take_axis [simp]: "shape (take_axis a k idxs) = (shape a)[k := length idxs]"
  by (simp add: take_axis_def Let_def)

lemma ndim_take_axis [simp]: "ndim (take_axis a k idxs) = ndim a"
  by (simp add: ndim_def)

lemma take_axis_0:
  assumes "shape a = n # r"
  shows "data (take_axis a 0 idxs)
     = concat (map (\<lambda>i. take (prod_list r) (drop (i * prod_list r) (data a))) idxs)"
  using assms by (simp add: take_axis_def Let_def outer_size_def inner_size_def)

lemma take_axis_0_prefix:
  assumes "shape a = n # r"
  shows "take_axis a 0 [0..<m] = NDArray (m # r) (take (m * prod_list r) (data a))"
proof -
  have "data (take_axis a 0 [0..<m]) = take (m * prod_list r) (data a)"
    unfolding take_axis_0 [OF assms] by (rule concat_take_drop_chunks)
  moreover have "shape (take_axis a 0 [0..<m]) = m # r"
    using assms by simp
  ultimately show ?thesis
    by (cases "take_axis a 0 [0..<m]") simp
qed

lemma map_nat_int_upt: "map (\<lambda>j. nat (int j)) [0..<n] = [0..<n]"
  by (simp add: list_eq_iff_nth_eq)

lemma slice_indices_prefix:
  assumes "0 \<le> m"
  shows "slice_indices (Slice (Some 0) (Some m) None) n = Inr [0..<min (nat m) n]"
    and "slice_indices (Slice None (Some m) None) n = Inr [0..<min (nat m) n]"
proof -
  have c: "nat (if 0 < (if int n \<le> m then int n else m)
                then (if int n \<le> m then int n else m) - 0 - 1 + 1 else 0) = min (nat m) n"
    using assms by auto
  show "slice_indices (Slice (Some 0) (Some m) None) n = Inr [0..<min (nat m) n]"
    using assms c by (simp add: slice_indices_def Let_def map_nat_int_upt)
  show "slice_indices (Slice None (Some m) None) n = Inr [0..<min (nat m) n]"
    using assms c by (simp add: slice_indices_def Let_def map_nat_int_upt)
qed

lemma slice_indices_reverse: "slice_indices (Slice None None (Some (- 1))) n = Inr (rev [0..<n])"
proof -
  have "map (\<lambda>j. nat (int n - 1 + int j * - 1)) [0..<n] = rev [0..<n]"
    by (auto simp: list_eq_iff_nth_eq rev_nth)
  then show ?thesis
    by (simp add: slice_indices_def Let_def)
qed

lemma zeros_nat: "zeros (map int s) = Inr (NDArray s (replicate (prod_list s) 0))"
proof -
  have e: "\<not> list_ex (\<lambda>n. n < 0) (map int s)"
    by (induction s) auto
  have m: "map nat (map int s) = s"
    by (induction s) auto
  show ?thesis using e m by (simp add: zeros_def)
qed

lemma wf_prod: "wf a \<Longrightarrow> shape a = n # r \<Longrightarrow> length (data a) = n * prod_list r"
  by (simp add: wf_def)

lemma concatenate_axis0:
  assumes "arrs \<noteq> []" and "\<forall>b \<in> set arrs. wf b \<and> shape b \<noteq> [] \<and> tl (shape b) = r"
  shows "concatenate arrs 0
     = Inr (NDArray (sum_list (map (\<lambda>b. hd (shape b)) arrs) # r) (concat (map data arrs)))"
proof -
  from assms(1) obtain a rest where ar: "arrs = a # rest" by (cases arrs) auto
  have sh: "\<And>b. b \<in> set arrs \<Longrightarrow> shape b = hd (shape b) # r"
    using assms(2) by (metis list.collapse)
  have sa: "shape a = hd (shape a) # r" using sh ar by simp
  have nd: "\<And>b. b \<in> set arrs \<Longrightarrow> ndim b = Suc (length r)"
    using sh by (metis length_Cons ndim_def)
  have ok: "\<not> list_ex (\<lambda>b. ndim b \<noteq> ndim a
               \<or> list_ex (\<lambda>i. i \<noteq> 0 \<and> shape b ! i \<noteq> shape a ! i) [0..<ndim a]) rest"
  proof -
    have "\<And>b i. b \<in> set rest \<Longrightarrow> i \<noteq> 0 \<Longrightarrow> shape b ! i = shape a ! i"
    proof -
      fix b :: "'a ndarray" and i :: nat
      assume b: "b \<in> set rest" and i: "i \<noteq> 0"
      have "shape b ! i = (hd (shape b) # r) ! i" using sh [of b] b ar by simp
      also have "\<dots> = (hd (shape a) # r) ! i" using i by (cases i) auto
      also have "\<dots> = shape a ! i" using sa by simp
      finally show "shape b ! i = shape a ! i" .
    qed
    moreover have "\<And>b. b \<in> set rest \<Longrightarrow> ndim b = ndim a"
      using nd ar by simp
    ultimately show ?thesis by (auto simp: list_ex_iff)
  qed
  have inner: "inner_size (shape a) 0 = prod_list r"
    using sa by (metis drop0 drop_Suc_Cons inner_size_def)
  have pieces: "map (\<lambda>b. take (shape b ! 0 * prod_list r) (drop (0 * (shape b ! 0 * prod_list r)) (data b))) arrs
       = map data arrs"
  proof (rule map_cong [OF refl])
    fix b assume b: "b \<in> set arrs"
    have "shape b ! 0 = hd (shape b)" using sh [OF b] by (metis nth_Cons_0)
    moreover have "length (data b) = hd (shape b) * prod_list r"
      using assms(2) b sh [OF b] wf_prod by blast
    ultimately show "take (shape b ! 0 * prod_list r) (drop (0 * (shape b ! 0 * prod_list r)) (data b)) = data b"
      by simp
  qed
  have hd0: "map (\<lambda>b. shape b ! 0) arrs = map (\<lambda>b. hd (shape b)) arrs"
  proof (rule map_cong [OF refl])
    fix b assume b: "b \<in> set arrs"
    show "shape b ! 0 = hd (shape b)" using sh [OF b] by (metis nth_Cons_0)
  qed
  have upd: "(shape a)[0 := x] = x # r" for x
    using sa by (metis list_update_code(2))
  have nda: "\<not> ndim a \<le> 0" using nd ar by simp
  let ?body = "concat (map (\<lambda>blk. concat (map (\<lambda>b. let m = shape b ! 0 * inner_size (shape a) 0
                                                     in take m (drop (blk * m) (data b))) arrs))
                    [0..<outer_size (shape a) 0])"
  have "?body = concat (map (\<lambda>b. take (shape b ! 0 * prod_list r)
                                    (drop (0 * (shape b ! 0 * prod_list r)) (data b))) arrs)"
    by (simp add: outer_size_def inner Let_def)
  also have "\<dots> = concat (map data arrs)"
    by (simp only: pieces)
  finally have body: "?body = concat (map data arrs)" .
  have "concatenate (a # rest) 0
     = Inr (NDArray ((shape a)[0 := sum_list (map (\<lambda>b. shape b ! 0) (a # rest))])
          (concat (map (\<lambda>blk. concat (map (\<lambda>b. let m = shape b ! 0 * inner_size (shape a) 0
                                                     in take m (drop (blk * m) (data b))) (a # rest)))
                    [0..<outer_size (shape a) 0])))"
    by (simp only: concatenate_def list.case ok nda if_False Let_def)
  then show ?thesis
    unfolding ar [symmetric] body hd0 upd .
qed


lemma length_concat_uniform:
  "(\<And>x. x \<in> set xs \<Longrightarrow> length (f x) = L) \<Longrightarrow> length (concat (map f xs)) = length xs * L"
  by (induction xs) auto

lemma block_bound:
  assumes "blk < m" "i < (n::nat)"
  shows "(blk * n + i) * L + L \<le> m * (n * L)"
proof -
  have "blk * n + i + 1 \<le> blk * n + n" using assms(2) by simp
  also have "\<dots> = (blk + 1) * n" by simp
  also have "\<dots> \<le> m * n" using assms(1) by (intro mult_le_mono1) simp
  finally have "(blk * n + i + 1) * L \<le> (m * n) * L" by (rule mult_le_mono1)
  then show ?thesis by (simp add: algebra_simps)
qed

lemma prod_list_update:
  assumes "k < length s"
  shows "prod_list (s[k := x]) = prod_list (take k s) * (x * prod_list (drop (Suc k) s))"
  using assms prod_list_split [of k "s[k := x]"] by simp

lemma wf_take_axis:
  assumes "wf a" "k < ndim a" "\<And>i. i \<in> set idxs \<Longrightarrow> i < shape a ! k"
  shows "wf (take_axis a k idxs)"
proof -
  let ?n = "shape a ! k" and ?L = "inner_size (shape a) k" and ?m = "outer_size (shape a) k"
  have len: "length (data a) = ?m * (?n * ?L)" using wf_length [OF assms(1,2)] .
  have run: "length (take ?L (drop ((blk * ?n + i) * ?L) (data a))) = ?L"
    if "blk < ?m" "i \<in> set idxs" for blk i
    using block_bound [OF that(1) assms(3) [OF that(2)], of ?L] len by simp
  have blk: "length (concat (map (\<lambda>i. take ?L (drop ((blk * ?n + i) * ?L) (data a))) idxs))
       = length idxs * ?L" if "blk < ?m" for blk
    using run [OF that] by (intro length_concat_uniform) auto
  have "length (data (take_axis a k idxs)) = length [0..<?m] * (length idxs * ?L)"
    unfolding take_axis_def Let_def ndarray.sel
  proof (rule length_concat_uniform)
    fix x assume "x \<in> set [0..<?m]"
    then have "x < ?m" by simp
    then show "length (concat (map (\<lambda>i. take ?L (drop ((x * ?n + i) * ?L) (data a))) idxs))
       = length idxs * ?L" by (rule blk)
  qed
  then show ?thesis
    using assms(2) by (simp add: wf_def ndim_def prod_list_update outer_size_def inner_size_def)
qed

lemma wf_zeros: "zeros s = Inr z \<Longrightarrow> wf z"
  by (auto simp: zeros_def wf_def split: if_splits)

lemma wf_repeat:
  assumes "wf a" "repeat a r axis = Inr b"
  shows "wf b" and "ndim b = ndim a" 
    and "\<And>i. i \<noteq> axis \<Longrightarrow> shape b ! i = shape a ! i"
proof -
  from assms(2) have k: "axis < ndim a"
    and b: "b = take_axis a axis (concat (map (\<lambda>i. replicate (nat r) i) [0..<shape a ! axis]))"
    by (auto simp: repeat_def split: if_splits)
  show "wf b" unfolding b using assms(1) k by (rule wf_take_axis) auto
  show "ndim b = ndim a" unfolding b by simp
  show "\<And>i. i \<noteq> axis \<Longrightarrow> shape b ! i = shape a ! i" unfolding b by simp
qed

lemma same_outer_inner:
  assumes "length t = length s" "\<And>i. i < length s \<Longrightarrow> i \<noteq> k \<Longrightarrow> t ! i = s ! i"
  shows "take k t = take k s" and "drop (Suc k) t = drop (Suc k) s"
  using assms by (auto intro!: nth_equalityI)

lemma wf_concatenate:
  assumes "concatenate arrs axis = Inr c" "\<And>b. b \<in> set arrs \<Longrightarrow> wf b"
  shows "wf c" and "ndim c = ndim (hd arrs)"
proof -
  from assms(1) obtain a rest where ar: "arrs = a # rest"
    by (cases arrs) (auto simp: concatenate_def)
  let ?L = "inner_size (shape a) axis" and ?m = "outer_size (shape a) axis"
  from assms(1) have k: "axis < ndim a"
    and ok: "\<not> list_ex (\<lambda>b. ndim b \<noteq> ndim a
               \<or> list_ex (\<lambda>i. i \<noteq> axis \<and> shape b ! i \<noteq> shape a ! i) [0..<ndim a]) rest"
    and c: "c = NDArray ((shape a)[axis := sum_list (map (\<lambda>b. shape b ! axis) arrs)])
              (concat (map (\<lambda>blk. concat (map (\<lambda>b. take (shape b ! axis * ?L)
                                                    (drop (blk * (shape b ! axis * ?L)) (data b))) arrs))
                 [0..<?m]))"
    unfolding ar concatenate_def by (auto simp: Let_def split: if_splits simp del: list_ex_iff)
  have same: "length (shape b) = length (shape a) \<and>
      (\<forall>i < length (shape a). i \<noteq> axis \<longrightarrow> shape b ! i = shape a ! i)" if "b \<in> set arrs" for b
    using that ok unfolding ar by (fastforce simp: list_ex_iff ndim_def)
  have len: "length (data b) = ?m * (shape b ! axis * ?L)" if "b \<in> set arrs" for b
  proof -
    have kb: "axis < ndim b" using same [OF that] k by (simp add: ndim_def)
    have "take axis (shape b) = take axis (shape a)" "drop (Suc axis) (shape b) = drop (Suc axis) (shape a)"
      using same [OF that] by (auto intro!: same_outer_inner)
    then show ?thesis
      using wf_length [OF assms(2) [OF that] kb] by (simp add: outer_size_def inner_size_def)
  qed
  have piece: "length (take (shape b ! axis * ?L) (drop (blk * (shape b ! axis * ?L)) (data b)))
       = shape b ! axis * ?L" if "b \<in> set arrs" "blk < ?m" for b blk
  proof -
    have "blk * (shape b ! axis * ?L) + shape b ! axis * ?L = (blk + 1) * (shape b ! axis * ?L)"
      by simp
    also have "\<dots> \<le> ?m * (shape b ! axis * ?L)"
      using that(2) by (intro mult_le_mono1) simp
    finally show ?thesis using len [OF that(1)] by simp
  qed
  have blk: "length (concat (map (\<lambda>b. take (shape b ! axis * ?L)
                                  (drop (blk * (shape b ! axis * ?L)) (data b))) arrs))
       = sum_list (map (\<lambda>b. shape b ! axis) arrs) * ?L" if "blk < ?m" for blk
  proof -
    have "length (concat (map (\<lambda>b. take (shape b ! axis * ?L)
                                  (drop (blk * (shape b ! axis * ?L)) (data b))) arrs))
        = sum_list (map (\<lambda>b. shape b ! axis * ?L) arrs)"
      using piece [OF _ that] by (simp add: length_concat comp_def cong: map_cong)
    also have "\<dots> = sum_list (map (\<lambda>b. shape b ! axis) arrs) * ?L"
      by (simp add: sum_list_mult_const)
    finally show ?thesis .
  qed
  have "length (data c) = length [0..<?m] * (sum_list (map (\<lambda>b. shape b ! axis) arrs) * ?L)"
    unfolding c ndarray.sel
  proof (rule length_concat_uniform)
    fix x assume "x \<in> set [0..<?m]"
    then have "x < ?m" by simp
    then show "length (concat (map (\<lambda>b. take (shape b ! axis * ?L)
                                  (drop (x * (shape b ! axis * ?L)) (data b))) arrs))
       = sum_list (map (\<lambda>b. shape b ! axis) arrs) * ?L" by (rule blk)
  qed
  then show "wf c"
    using k by (simp add: c wf_def ndim_def prod_list_update outer_size_def inner_size_def)
  show "ndim c = ndim (hd arrs)"
    by (simp add: c ar ndim_def)
qed


subsection \<open>reshape\<close>

lemma reshape_nat:
  "reshape a (map int ns) =
     (if prod_list ns = length (data a) then Inr (NDArray ns (data a)) else Inl ValueError)"
proof -
  have f: "filter (\<lambda>n. n \<noteq> - 1) (map int ns) = map int ns"
    by (induction ns) auto
  have e: "\<not> list_ex (\<lambda>n. n < - 1) (map int ns)"
    by (induction ns) auto
  have p: "prod_list (map int ns) = int (prod_list ns)"
    by (induction ns) auto
  have m: "map nat (map int ns) = ns"
    by (induction ns) auto
  show ?thesis
    unfolding reshape_def Let_def f using e p m by auto
qed

subsection \<open>time_batch_make_flat\<close>

lemma shape_two_or_more:
  assumes "length s > 1"
  shows "s = s ! 0 # s ! 1 # drop 2 s"
proof -
  from assms obtain x y r where s: "s = x # y # r"
    by (cases s; cases "tl s") auto
  show ?thesis by (subst s) (simp add: s)
qed

lemma map_nth_from: "map (\<lambda>i. s ! i) [k..<length s] = drop k s"
  by (simp add: list_eq_iff_nth_eq)

text \<open>
  C6. For a well-formed array of shape (T, B, ...) with at least two dimensions,
  time_batch_make_flat returns an array of shape (T * B, ...), the trailing dimensions
  unchanged, and reshaping that result to the shape of the input gives the input back.
  With fewer than two dimensions the call fails on its assertion.
\<close>

theorem time_batch_make_flat_spec:
  "(wf A \<and> ndim A \<ge> 2 \<longrightarrow>
      (\<exists>F. time_batch_make_flat A = Inr F
          \<and> shape F = (shape A ! 0 * shape A ! 1) # drop 2 (shape A)
          \<and> ndim F = ndim A - 1
          \<and> reshape F (map int (shape A)) = Inr A))
   \<and> (ndim A < 2 \<longrightarrow> time_batch_make_flat A = Inl (AssertionError ''''))"
proof (intro conjI impI)
  assume a: "wf A \<and> ndim A \<ge> 2"
  let ?s = "shape A"
  let ?ns = "(?s ! 0 * ?s ! 1) # drop 2 ?s"
  from a have l: "length ?s > 1" by (simp add: ndim_def)
  have sp: "?s = ?s ! 0 # ?s ! 1 # drop 2 ?s"
    using shape_two_or_more [OF l] .
  have "prod_list ?s = prod_list (?s ! 0 # ?s ! 1 # drop 2 ?s)"
    using sp by simp
  then have pr: "prod_list ?ns = length (data A)"
    using a by (simp add: wf_def mult.assoc)
  have ns: "[?s ! 0 * ?s ! 1] @ map (\<lambda>i. ?s ! i) [2..<ndim A] = ?ns"
    by (simp add: ndim_def map_nth_from)
  have rs: "reshape A (map int ?ns) = Inr (NDArray ?ns (data A))"
    unfolding reshape_nat using pr by (rule if_P)
  have r: "time_batch_make_flat A = Inr (NDArray ?ns (data A))"
    unfolding time_batch_make_flat_def Let_def ns using l rs
    by (simp only: ndim_def not_True_eq_False if_False)
  have rb: "reshape (NDArray ?ns (data A)) (map int ?s) = Inr A"
    using a by (simp add: reshape_nat wf_def)
  show "\<exists>F. time_batch_make_flat A = Inr F
          \<and> shape F = (shape A ! 0 * shape A ! 1) # drop 2 (shape A)
          \<and> ndim F = ndim A - 1
          \<and> reshape F (map int (shape A)) = Inr A"
    using r rb l by (auto simp: ndim_def)
next
  assume "ndim A < 2"
  then show "time_batch_make_flat A = Inl (AssertionError '''')"
    by (simp add: time_batch_make_flat_def)
qed

theorem time_batch_make_flat_spec_witness:
  "time_batch_make_flat (NDArray [2, 3, 2] [1, 2, 3, 4, 5, 6, 7, 8, 9, 10, 11, 12 :: int])
     = Inr (NDArray [6, 2] [1, 2, 3, 4, 5, 6, 7, 8, 9, 10, 11, 12])
   \<and> reshape (NDArray [6, 2] [1, 2, 3, 4, 5, 6, 7, 8, 9, 10, 11, 12 :: int]) (map int [2, 3, 2])
     = Inr (NDArray [2, 3, 2] [1, 2, 3, 4, 5, 6, 7, 8, 9, 10, 11, 12])
   \<and> time_batch_make_flat (NDArray [3] [1, 2, 3 :: int]) = Inl (AssertionError '''')"
proof -
  let ?A = "NDArray [2, 3, 2] [1, 2, 3, 4, 5, 6, 7, 8, 9, 10, 11, 12 :: int]"
  let ?V = "NDArray [3] [1, 2, 3 :: int]"
  have w: "wf ?A \<and> ndim ?A \<ge> 2" by (simp add: wf_def ndim_def)
  have v: "ndim ?V < 2" by (simp add: ndim_def)
  from time_batch_make_flat_spec [of ?A] w
  obtain F where F: "time_batch_make_flat ?A = Inr F"
      "shape F = (shape ?A ! 0 * shape ?A ! 1) # drop 2 (shape ?A)"
      "reshape F (map int (shape ?A)) = Inr ?A"
    by blast
  have d: "data F = data ?A"
    using F(3) unfolding reshape_nat by (cases F) (auto split: if_splits)
  have e: "F = NDArray [6, 2] [1, 2, 3, 4, 5, 6, 7, 8, 9, 10, 11, 12]"
    using F(2) d by (cases F) simp
  from time_batch_make_flat_spec [of ?V] v
  have n: "time_batch_make_flat ?V = Inl (AssertionError '''')" by blast
  from F(3) have "reshape F (map int [2, 3, 2]) = Inr ?A" by simp
  with F(1) n show ?thesis unfolding e by simp
qed

subsection \<open>GradDiscardOutOfBound\<close>

lemma grad_one:
  "switch (tensor_or (lt g lb) (gt g ub)) 0 g =
     NDArray (shape g) (map (\<lambda>v. if v < lb \<or> ub < v then 0 else v) (data g))"
  by (simp add: switch_def tensor_or_def lt_def gt_def list_eq_iff_nth_eq)

text \<open>
  C4. The forward pass of the operator returns its input unchanged. The backward pass
  returns one gradient per incoming gradient, of the same shape, in which every value
  \<open>v\<close> below the lower bound or above the upper bound is replaced by 0 and every
  value inside the bounds is kept. Constructing the operator with a lower bound above the
  upper bound fails, and with ordered bounds it succeeds.
\<close>

theorem grad_discard_spec:
  fixes lb ub :: "'a::{linorder,zero}"
  shows "perform self x = x
   \<and> (GradDiscardOutOfBound_init lb ub = Inr self \<longrightarrow>
        grad_discard_out_of_bound x lb ub = Inr x
        \<and> length (grad self args g_outs) = length g_outs
        \<and> (\<forall>k < length g_outs.
             shape (grad self args g_outs ! k) = shape (g_outs ! k)
             \<and> length (data (grad self args g_outs ! k)) = length (data (g_outs ! k))
             \<and> (\<forall>i < length (data (g_outs ! k)).
                  let v = data (g_outs ! k) ! i; r = data (grad self args g_outs ! k) ! i
                  in (v < lb \<or> v > ub \<longrightarrow> r = 0) \<and> (lb \<le> v \<and> v \<le> ub \<longrightarrow> r = v))))
   \<and> (lb > ub \<longrightarrow> (\<exists>e. GradDiscardOutOfBound_init lb ub = Inl e)
                  \<and> (\<exists>e. grad_discard_out_of_bound x lb ub = Inl e))
   \<and> (lb \<le> ub \<longrightarrow> (\<exists>op. GradDiscardOutOfBound_init lb ub = Inr op))"
proof (intro conjI impI allI)
  show "perform self x = x" by (simp add: perform_def)
next
  assume "GradDiscardOutOfBound_init lb ub = Inr self"
  then show "grad_discard_out_of_bound x lb ub = Inr x"
    by (simp add: grad_discard_out_of_bound_def bind_err_def perform_def)
next
  show "length (grad self args g_outs) = length g_outs" by (simp add: grad_def)
next
  fix k
  assume i: "GradDiscardOutOfBound_init lb ub = Inr self" and k: "k < length g_outs"
  from i have b: "lower_bound self = lb" "upper_bound self = ub"
    by (auto simp: GradDiscardOutOfBound_init_def split: if_splits)
  have g: "grad self args g_outs ! k =
      NDArray (shape (g_outs ! k)) (map (\<lambda>v. if v < lb \<or> ub < v then 0 else v) (data (g_outs ! k)))"
    using k by (simp add: grad_def grad_one b)
  show "shape (grad self args g_outs ! k) = shape (g_outs ! k)"
    by (simp add: g)
  show "length (data (grad self args g_outs ! k)) = length (data (g_outs ! k))"
    by (simp add: g)
  fix j
  assume "j < length (data (g_outs ! k))"
  then show "let v = data (g_outs ! k) ! j; r = data (grad self args g_outs ! k) ! j
        in (v < lb \<or> v > ub \<longrightarrow> r = 0) \<and> (lb \<le> v \<and> v \<le> ub \<longrightarrow> r = v)"
    by (auto simp: g Let_def)
next
  assume "ub < lb"
  then show "\<exists>e. GradDiscardOutOfBound_init lb ub = Inl e"
    by (simp add: GradDiscardOutOfBound_init_def)
next
  assume "ub < lb"
  then show "\<exists>e. grad_discard_out_of_bound x lb ub = Inl e"
    by (simp add: grad_discard_out_of_bound_def bind_err_def GradDiscardOutOfBound_init_def)
next
  assume "lb \<le> ub"
  then show "\<exists>op. GradDiscardOutOfBound_init lb ub = Inr op"
    by (simp add: GradDiscardOutOfBound_init_def)
qed

theorem grad_discard_spec_witness:
  "GradDiscardOutOfBound_init (- 1 :: int) 2 = Inr \<lparr>lower_bound = - 1, upper_bound = 2\<rparr>
   \<and> grad_discard_out_of_bound (NDArray [4] [- 5, - 1, 2, 7 :: int]) (- 1) 2
       = Inr (NDArray [4] [- 5, - 1, 2, 7])
   \<and> data (grad \<lparr>lower_bound = - 1 :: int, upper_bound = 2\<rparr> [] [NDArray [4] [- 5, - 1, 2, 7]] ! 0)
       = [0, - 1, 2, 0]
   \<and> (\<exists>e. GradDiscardOutOfBound_init (3 :: int) 2 = Inl e)"
proof -
  let ?self = "\<lparr>lower_bound = - 1 :: int, upper_bound = 2\<rparr>"
  let ?g = "NDArray [4] [- 5, - 1, 2, 7 :: int]"
  have i: "GradDiscardOutOfBound_init (- 1 :: int) 2 = Inr ?self"
    by (simp add: GradDiscardOutOfBound_init_def)
  note s = grad_discard_spec [of ?self ?g "- 1" 2 "[]" "[?g]"]
  from s i have f: "grad_discard_out_of_bound ?g (- 1) 2 = Inr ?g" by blast
  from s i have q: "\<forall>k < length [?g].
      length (data (grad ?self [] [?g] ! k)) = length (data ([?g] ! k))
      \<and> (\<forall>i < length (data ([?g] ! k)).
            let v = data ([?g] ! k) ! i; r = data (grad ?self [] [?g] ! k) ! i
            in (v < - 1 \<or> v > 2 \<longrightarrow> r = 0) \<and> (- 1 \<le> v \<and> v \<le> 2 \<longrightarrow> r = v))"
    by blast
  then have l: "length (data (grad ?self [] [?g] ! 0)) = 4" by simp
  from q have e: "\<forall>i < 4. let v = [- 5, - 1, 2, 7 :: int] ! i; r = data (grad ?self [] [?g] ! 0) ! i
            in (v < - 1 \<or> v > 2 \<longrightarrow> r = 0) \<and> (- 1 \<le> v \<and> v \<le> 2 \<longrightarrow> r = v)"
    by simp
  have e0: "data (grad ?self [] [?g] ! 0) ! 0 = 0" using e [rule_format, of 0] by (simp add: Let_def)
  have e1: "data (grad ?self [] [?g] ! 0) ! 1 = - 1" using e [rule_format, of 1] by (simp add: Let_def)
  have e2: "data (grad ?self [] [?g] ! 0) ! 2 = 2" using e [rule_format, of 2] by (simp add: Let_def)
  have e3: "data (grad ?self [] [?g] ! 0) ! 3 = 0" using e [rule_format, of 3] by (simp add: Let_def)
  have d: "data (grad ?self [] [?g] ! 0) = [0, - 1, 2, 0]"
    using l e0 e1 e2 e3 by (auto simp: list_eq_iff_nth_eq less_Suc_eq numeral_eq_Suc)
  from s have "(3::int) > 2 \<longrightarrow> (\<exists>e. GradDiscardOutOfBound_init (3 :: int) 2 = Inl e)"
    using grad_discard_spec [of ?self ?g 3 2 "[]" "[?g]"] by blast
  then show ?thesis using i f d by simp
qed

subsection \<open>slice_for_axis and the functions that use it\<close>

lemma wf_pad_target:
  assumes "wf a" "\<And>v. pv = Some v \<Longrightarrow> wf v" "pad_target a axis len pv = Inr t"
  shows "wf t"
proof -
  from assms(3) obtain p where
    p: "(case pv of Some v \<Rightarrow> Inr v
         | None \<Rightarrow> zeros (map (\<lambda>i. if i \<noteq> axis then int (shape a ! i) else 1) [0..<ndim a])) = Inr p"
    by (cases "case pv of Some v \<Rightarrow> Inr v
         | None \<Rightarrow> zeros (map (\<lambda>i. if i \<noteq> axis then int (shape a ! i) else 1) [0..<ndim a])")
       (auto simp: pad_target_def)
  have wp: "wf p"
    using p assms(2) wf_zeros by (cases pv) auto
  from assms(3) p obtain q where
    q: "repeat p (max (cast_int32 len - int (shape a ! axis)) 1) axis = Inr q"
    and c: "concatenate [a, q] axis = Inr t"
    by (cases "repeat p (max (cast_int32 len - int (shape a ! axis)) 1) axis")
       (auto simp: pad_target_def Let_def split: if_splits)
  have "wf q" using wf_repeat(1) [OF wp q] .
  then show ?thesis using wf_concatenate(1) [OF c] assms(1) by auto
qed

lemma ndim_pad_target:
  assumes "pad_target a axis len pv = Inr t"
  shows "ndim t = ndim a"
proof -
  from assms obtain p q where c: "concatenate [a, q] axis = Inr t"
    by (auto simp: pad_target_def Let_def bind_err_def split: if_splits sum.splits)
  then show ?thesis
    by (auto simp: concatenate_def Let_def ndim_def split: if_splits)
qed

lemma py_int_of_int [simp]: "py_int (of_int f) = f"
  by (simp add: py_int_def)

lemma py_int_integral: "x = of_int (py_int x) \<longleftrightarrow> x \<in> \<int>"
proof
  assume "x = of_int (py_int x)"
  then show "x \<in> \<int>" by (metis Ints_of_int)
next
  assume "x \<in> \<int>"
  then obtain f where "x = of_int f" by (auto elim: Ints_cases)
  then show "x = of_int (py_int x)" by simp
qed

lemma slice_indices_last:
  "slice_indices (Slice (Some (- 1)) None None) n = Inr (if n = 0 then [] else [n - 1])"
proof (cases "n = 0")
  case True
  then show ?thesis by (simp add: slice_indices_def Let_def)
next
  case False
  then have "nat (int n - 1) = n - 1" by simp
  with False show ?thesis by (simp add: slice_indices_def Let_def)
qed

lemma wf_slice_axis_last:
  assumes "wf a" "slice_axis a k (Slice (Some (- 1)) None None) = Inr b"
  shows "wf b"
proof -
  from assms(2) have k: "k < ndim a"
    and b: "b = take_axis a k (if shape a ! k = 0 then [] else [shape a ! k - 1])"
    by (auto simp: slice_axis_def slice_indices_last split: if_splits)
  show ?thesis unfolding b using assms(1) k by (rule wf_take_axis) (auto split: if_splits)
qed

lemma pad_preceding:
  fixes A :: "'a::zero ndarray"
  assumes "wf A" "1 \<le> axis" "axis < ndim A" "\<And>v. pv = Some v \<Longrightarrow> wf v"
  shows "pad A axis len pv
      = bind_err (pad_target A axis len pv)
          (\<lambda>target. slice_axis target (axis - 1) (Slice (Some 0) (Some len) None))"
proof (cases "pad_target A axis len pv")
  case (Inl e)
  then show ?thesis by (simp add: pad_def)
next
  case (Inr t)
  have "wf t" using wf_pad_target [OF assms(1) assms(4) Inr] .
  moreover have "axis \<le> ndim t" using ndim_pad_target [OF Inr] assms(3) by simp
  ultimately show ?thesis
    using Inr by (simp add: pad_def getitem_slice_for_axis)
qed

lemma upsample_preceding:
  fixes A :: "'a::zero ndarray"
  assumes "wf A" "1 \<le> axis" "axis < ndim A"
  shows "upsample A axis (of_int f) ''nearest-neighbor'' (Some len)
      = bind_err (repeat A f axis) (\<lambda>target.
          bind_err (slice_axis A (axis - 1) (Slice (Some (- 1)) None None)) (\<lambda>last.
            bind_err (pad_target target axis len (Some last)) (\<lambda>padded.
              slice_axis padded (axis - 1) (Slice (Some 0) (Some len) None))))"
proof -
  have g: "getitem A (slice_for_axis (int axis) (Slice (Some (- 1)) None None))
      = slice_axis A (axis - 1) (Slice (Some (- 1)) None None)"
    using assms by (intro getitem_slice_for_axis) auto
  show ?thesis
  proof (cases "repeat A f axis")
    case (Inl e)
    then show ?thesis by (simp add: upsample_def Let_def)
  next
    case target: (Inr t)
    have wt: "wf t" and nt: "ndim t = ndim A"
      using wf_repeat(1,2) [OF assms(1) target] by auto
    show ?thesis
    proof (cases "slice_axis A (axis - 1) (Slice (Some (- 1)) None None)")
      case (Inl e)
      then show ?thesis using target g by (simp add: upsample_def Let_def)
    next
      case (Inr l)
      have wl: "wf l" using wf_slice_axis_last [OF assms(1) Inr] .
      have "pad t axis len (Some l)
          = bind_err (pad_target t axis len (Some l))
              (\<lambda>padded. slice_axis padded (axis - 1) (Slice (Some 0) (Some len) None))"
        using wt assms(2) nt assms(3) wl by (intro pad_preceding) auto
      then show ?thesis using target g Inr by (simp add: upsample_def Let_def)
    qed
  qed
qed

text \<open>
  C10. For an axis \<open>a \<ge> 1\<close>, \<open>slice_for_axis a s\<close> is \<open>a - 1\<close> full slices followed by
  \<open>s\<close>: a tuple of length \<open>a\<close> whose last position, \<open>a - 1\<close>, holds \<open>s\<close>. Indexing a
  well-formed array of at least two dimensions with it therefore applies \<open>s\<close> to dimension
  \<open>a - 1\<close> and leaves the length of dimension \<open>a\<close> as it was. Consequently, for every
  such array and every axis from 1 on, the slicing steps are carried out on the dimension
  before the requested axis: the final truncation of \<open>pad\<close>, with the default pad value and
  with any well-formed pad value given; in \<open>upsample\<close> with a target length both the
  selection of the last frame and the truncation of the \<open>pad\<close> it calls; and in
  \<open>downsample\<close> the truncation to a multiple of the factor. With axis 0 the slice is
  applied to dimension 0, the axis named.
\<close>

theorem slice_for_axis_preceding_dimension:
  fixes A :: "'a::zero ndarray" and D :: "'b::linordered_field ndarray"
  shows
   "(1 \<le> axis \<longrightarrow>
       slice_for_axis (int axis) s = replicate (axis - 1) (Slice None None None) @ [s]
       \<and> length (slice_for_axis (int axis) s) = axis
       \<and> slice_for_axis (int axis) s ! (axis - 1) = s)
  \<and> (wf A \<and> 2 \<le> ndim A \<and> 1 \<le> axis \<and> axis < ndim A \<longrightarrow>
       getitem A (slice_for_axis (int axis) s) = slice_axis A (axis - 1) s
       \<and> (\<forall>B. slice_axis A (axis - 1) s = Inr B \<longrightarrow> shape B ! axis = shape A ! axis)
       \<and> ((\<forall>v. pad_value = Some v \<longrightarrow> wf v) \<longrightarrow>
            pad A axis len pad_value
              = bind_err (pad_target A axis len pad_value)
                  (\<lambda>target. slice_axis target (axis - 1) (Slice (Some 0) (Some len) None)))
       \<and> upsample A axis (of_int factor) ''nearest-neighbor'' (Some len)
           = bind_err (repeat A factor axis) (\<lambda>target.
               bind_err (slice_axis A (axis - 1) (Slice (Some (- 1)) None None)) (\<lambda>last.
                 bind_err (pad_target target axis len (Some last)) (\<lambda>padded.
                   slice_axis padded (axis - 1) (Slice (Some 0) (Some len) None)))))
  \<and> (wf D \<and> 2 \<le> ndim D \<and> 1 \<le> axis \<and> axis < ndim D \<and> f \<noteq> 0 \<longrightarrow>
       downsample D axis (of_int f) meth
         = bind_err (slice_axis D (axis - 1)
                       (Slice (Some 0) (Some (int (shape D ! axis) div f * f)) None))
             (\<lambda>source. downsample_reduce source axis f meth))
  \<and> (wf A \<and> 1 \<le> ndim A \<longrightarrow> getitem A (slice_for_axis 0 s) = slice_axis A 0 s)"
proof (intro conjI impI allI)
  assume "1 \<le> axis"
  then have n: "nat (int axis - 1) = axis - 1" by simp
  show "slice_for_axis (int axis) s = replicate (axis - 1) (Slice None None None) @ [s]"
    by (simp add: slice_for_axis_def n)
  show "length (slice_for_axis (int axis) s) = axis"
    using \<open>1 \<le> axis\<close> by (simp add: slice_for_axis_def)
  show "slice_for_axis (int axis) s ! (axis - 1) = s"
    by (simp add: slice_for_axis_def n nth_append)
next
  assume a: "wf A \<and> 2 \<le> ndim A \<and> 1 \<le> axis \<and> axis < ndim A"
  then show "getitem A (slice_for_axis (int axis) s) = slice_axis A (axis - 1) s"
    by (intro getitem_slice_for_axis) auto
next
  fix B
  assume a: "wf A \<and> 2 \<le> ndim A \<and> 1 \<le> axis \<and> axis < ndim A"
    and b: "slice_axis A (axis - 1) s = Inr B"
  from b obtain idxs where "B = take_axis A (axis - 1) idxs"
    by (auto simp: slice_axis_def bind_err_def split: if_splits sum.splits)
  moreover have "axis - 1 \<noteq> axis" using a by arith
  ultimately show "shape B ! axis = shape A ! axis"
    by (simp del: One_nat_def)
next
  assume a: "wf A \<and> 2 \<le> ndim A \<and> 1 \<le> axis \<and> axis < ndim A"
    and v: "\<forall>v. pad_value = Some v \<longrightarrow> wf v"
  show "pad A axis len pad_value
      = bind_err (pad_target A axis len pad_value)
          (\<lambda>target. slice_axis target (axis - 1) (Slice (Some 0) (Some len) None))"
    using a v by (intro pad_preceding) auto
next
  assume a: "wf A \<and> 2 \<le> ndim A \<and> 1 \<le> axis \<and> axis < ndim A"
  show "upsample A axis (of_int factor) ''nearest-neighbor'' (Some len)
      = bind_err (repeat A factor axis) (\<lambda>target.
          bind_err (slice_axis A (axis - 1) (Slice (Some (- 1)) None None)) (\<lambda>last.
            bind_err (pad_target target axis len (Some last)) (\<lambda>padded.
              slice_axis padded (axis - 1) (Slice (Some 0) (Some len) None))))"
    using a by (intro upsample_preceding) auto
next
  assume a: "wf D \<and> 2 \<le> ndim D \<and> 1 \<le> axis \<and> axis < ndim D \<and> f \<noteq> 0"
  have "getitem D (slice_for_axis (int axis) (Slice (Some 0) (Some (int (shape D ! axis) div f * f)) None))
      = slice_axis D (axis - 1) (Slice (Some 0) (Some (int (shape D ! axis) div f * f)) None)"
    using a by (intro getitem_slice_for_axis) auto
  then show "downsample D axis (of_int f) meth
      = bind_err (slice_axis D (axis - 1)
                    (Slice (Some 0) (Some (int (shape D ! axis) div f * f)) None))
          (\<lambda>source. downsample_reduce source axis f meth)"
    using a by (simp add: downsample_def Let_def)
next
  assume a: "wf A \<and> 1 \<le> ndim A"
  show "getitem A (slice_for_axis 0 s) = slice_axis A 0 s"
    by (simp only: slice_for_axis_zero getitem_def getitem_from_single)
qed

text \<open>
  C8. Invalid arguments make the call return a failure, and nothing else. A factor that is not
  an integer fails the first assertion of \<open>downsample\<close>, and of \<open>upsample\<close> with the
  nearest-neighbor method (with any other method \<open>upsample\<close> fails on the method); a method
  other than average, max and min makes \<open>downsample\<close> fail: its reducing part ends in the
  assertion on the method unless the reshape before it has already failed; a method other than
  nearest-neighbor fails the assertion of \<open>upsample\<close>; a lower bound above the upper bound
  fails the assertion of the constructor of the gradient-discard operator.
\<close>

theorem fail_fast_preconditions:
  fixes D :: "'b::linordered_field ndarray" and A :: "'a::zero ndarray" and lb ub :: "'c::linorder"
  shows
   "(factor \<notin> \<int> \<longrightarrow>
       downsample D axis factor meth = Inl (AssertionError ''factor is expected to be an int'')
       \<and> upsample A axis factor ''nearest-neighbor'' len
           = Inl (AssertionError ''factor is expected to be an int'')
       \<and> (\<exists>msg. upsample A axis factor meth len = Inl (AssertionError msg)))
  \<and> (meth \<noteq> ''average'' \<and> meth \<noteq> ''max'' \<and> meth \<noteq> ''min'' \<longrightarrow>
       (\<exists>e. downsample D axis factor meth = Inl e)
       \<and> (downsample_reduce D axis f meth = Inl (AssertionError ''unknown downsample method'')
            \<or> downsample_reduce D axis f meth = Inl ValueError))
  \<and> (meth \<noteq> ''nearest-neighbor'' \<longrightarrow>
       upsample A axis factor meth len = Inl (AssertionError ''unknown upsample method''))
  \<and> (ub < lb \<longrightarrow>
       GradDiscardOutOfBound_init lb ub = Inl (AssertionError '''')
       \<and> grad_discard_out_of_bound G lb ub = Inl (AssertionError ''''))"
proof (intro conjI impI allI)
  assume n: "factor \<notin> \<int>"
  then have ne: "factor \<noteq> of_int (py_int factor)"
    using py_int_integral [of factor] by simp
  show "downsample D axis factor meth = Inl (AssertionError ''factor is expected to be an int'')"
    using ne by (simp add: downsample_def)
  show "upsample A axis factor ''nearest-neighbor'' len
      = Inl (AssertionError ''factor is expected to be an int'')"
    using ne by (simp add: upsample_def)
  show "\<exists>msg. upsample A axis factor meth len = Inl (AssertionError msg)"
    using ne by (simp add: upsample_def)
next
  assume m: "meth \<noteq> ''average'' \<and> meth \<noteq> ''max'' \<and> meth \<noteq> ''min''"
  have red: "downsample_reduce S axis g meth = Inl (AssertionError ''unknown downsample method'')
      \<or> downsample_reduce S axis g meth = Inl ValueError" for S :: "'b ndarray" and g
  proof (cases "reshape S (take axis (map (\<lambda>i. int (shape S ! i)) [0..<ndim S])
                              @ [int (shape S ! axis) div g, g]
                              @ drop (axis + 1) (map (\<lambda>i. int (shape S ! i)) [0..<ndim S]))")
    case (Inl e)
    then have "e = ValueError"
      by (auto simp: reshape_def Let_def split: if_splits)
    with Inl show ?thesis by (simp add: downsample_reduce_def Let_def)
  next
    case (Inr R)
    then show ?thesis using m by (simp add: downsample_reduce_def Let_def)
  qed
  show "\<exists>e. downsample D axis factor meth = Inl e"
  proof (cases "getitem D (slice_for_axis (int axis)
                  (Slice (Some 0) (Some (int (shape D ! axis) div py_int factor * py_int factor)) None))")
    case (Inl e)
    then show ?thesis by (simp add: downsample_def Let_def)
  next
    case (Inr S)
    then show ?thesis using red [of S "py_int factor"] by (auto simp: downsample_def Let_def)
  qed
  show "downsample_reduce D axis f meth = Inl (AssertionError ''unknown downsample method'')
      \<or> downsample_reduce D axis f meth = Inl ValueError"
    using red [of D f] .
next
  assume "meth \<noteq> ''nearest-neighbor''"
  then show "upsample A axis factor meth len = Inl (AssertionError ''unknown upsample method'')"
    by (simp add: upsample_def)
next
  assume "ub < lb"
  then show "GradDiscardOutOfBound_init lb ub = Inl (AssertionError '''')"
    by (simp add: GradDiscardOutOfBound_init_def)
next
  assume "ub < lb"
  then show "grad_discard_out_of_bound G lb ub = Inl (AssertionError '''')"
    by (simp add: grad_discard_out_of_bound_def GradDiscardOutOfBound_init_def)
qed

theorem fail_fast_preconditions_witness:
  "downsample (NDArray [4] [1, 2, 3, 4 :: rat]) 0 (5 / 2) ''average''
     = Inl (AssertionError ''factor is expected to be an int'')
   \<and> upsample (NDArray [4] [1, 2, 3, 4 :: int]) 0 (5 / 2) ''nearest-neighbor'' None
     = Inl (AssertionError ''factor is expected to be an int'')
   \<and> downsample_reduce (NDArray [4] [1, 2, 3, 4 :: rat]) 0 2 ''median''
     = Inl (AssertionError ''unknown downsample method'')
   \<and> upsample (NDArray [4] [1, 2, 3, 4 :: int]) 0 2 ''linear'' None
     = Inl (AssertionError ''unknown upsample method'')
   \<and> GradDiscardOutOfBound_init (3 :: int) 2 = Inl (AssertionError '''')"
proof -
  let ?D = "NDArray [4] [1, 2, 3, 4 :: rat]" and ?A = "NDArray [4] [1, 2, 3, 4 :: int]"
  have n: "(5 / 2 :: real) \<notin> \<int>"
  proof
    assume "(5 / 2 :: real) \<in> \<int>"
    then obtain k :: int where "(5 / 2 :: real) = of_int k" by (auto elim: Ints_cases)
    then have "(5 :: real) = of_int (2 * k)" by simp
    then have "(5 :: int) = 2 * k" using of_int_eq_iff [of 5 "2 * k", where ?'a = real] by simp
    then show False by presburger
  qed
  have m: "''median'' \<noteq> ''average'' \<and> ''median'' \<noteq> ''max'' \<and> ''median'' \<noteq> ''min''" by simp
  have l: "''linear'' \<noteq> ''nearest-neighbor''" by simp
  have v: "downsample_reduce ?D 0 2 ''median'' \<noteq> Inl ValueError" by code_simp
  have g: "(2 :: int) < 3" by simp
  note t1 = fail_fast_preconditions [where D = ?D and A = ?A and factor = "5 / 2" and axis = 0
      and meth = "''average''" and len = None and lb = "3 :: int" and ub = 2 and f = 2]
  note t2 = fail_fast_preconditions [where D = ?D and A = ?A and factor = 2 and axis = 0
      and meth = "''median''" and len = None and lb = "3 :: int" and ub = 2 and f = 2]
  note t3 = fail_fast_preconditions [where D = ?D and A = ?A and factor = 2 and axis = 0
      and meth = "''linear''" and len = None and lb = "3 :: int" and ub = 2 and f = 2]
  from t1 n have "downsample ?D 0 (5 / 2) ''average''
       = Inl (AssertionError ''factor is expected to be an int'')"
    and "upsample ?A 0 (5 / 2) ''nearest-neighbor'' None
       = Inl (AssertionError ''factor is expected to be an int'')"
    by blast+
  moreover from t2 m v have "downsample_reduce ?D 0 2 ''median''
       = Inl (AssertionError ''unknown downsample method'')"
    by blast
  moreover from t3 l have "upsample ?A 0 2 ''linear'' None
       = Inl (AssertionError ''unknown upsample method'')"
    by blast
  moreover from t1 g have "GradDiscardOutOfBound_init (3 :: int) 2 = Inl (AssertionError '''')"
    by blast
  ultimately show ?thesis by simp
qed

theorem slice_for_axis_preceding_dimension_witness:
  "getitem (NDArray [3, 2] [1, 2, 3, 4, 5, 6 :: int]) (slice_for_axis (int 1) (Slice (Some 0) (Some 1) None))
     = Inr (NDArray [1, 2] [1, 2])
   \<and> pad (NDArray [3, 2] [1, 2, 3, 4, 5, 6 :: int]) 1 1 None = Inr (NDArray [1, 3] [1, 2, 0])
   \<and> pad (NDArray [3, 2] [1, 2, 3, 4, 5, 6 :: int]) 1 1 (Some (NDArray [3, 1] [7, 8, 9]))
     = Inr (NDArray [1, 3] [1, 2, 7])
   \<and> upsample (NDArray [1, 2] [1, 2 :: int]) 1 (of_int 1) ''nearest-neighbor'' (Some 3)
     = Inr (NDArray [1, 4] [1, 2, 1, 2])
   \<and> downsample (NDArray [3, 2] [1, 2, 3, 4, 5, 6 :: rat]) 1 (of_int 2) ''average''
     = Inr (NDArray [2, 1] [3 / 2, 7 / 2])"
proof -
  let ?A = "NDArray [3, 2] [1, 2, 3, 4, 5, 6 :: int]" and ?D = "NDArray [3, 2] [1, 2, 3, 4, 5, 6 :: rat]"
  let ?U = "NDArray [1, 2] [1, 2 :: int]" and ?V = "NDArray [3, 1] [7, 8, 9 :: int]"
  let ?s = "Slice (Some 0) (Some 1) None"
  have h: "wf ?A \<and> 2 \<le> ndim ?A \<and> 1 \<le> (1 :: nat) \<and> 1 < ndim ?A"
    by (simp add: wf_def ndim_def)
  have hu: "wf ?U \<and> 2 \<le> ndim ?U \<and> 1 \<le> (1 :: nat) \<and> 1 < ndim ?U"
    by (simp add: wf_def ndim_def)
  have hd: "wf ?D \<and> 2 \<le> ndim ?D \<and> 1 \<le> (1 :: nat) \<and> 1 < ndim ?D \<and> (2 :: int) \<noteq> 0"
    by (simp add: wf_def ndim_def)
  have hn: "\<forall>v. (None :: int ndarray option) = Some v \<longrightarrow> wf v" by simp
  have hv: "\<forall>v. Some ?V = Some v \<longrightarrow> wf v" by (simp add: wf_def)
  note t = slice_for_axis_preceding_dimension [where A = ?A and D = ?D and axis = 1 and s = ?s
      and len = 1 and f = 2 and meth = "''average''" and pad_value = None and factor = 1]
  note p = slice_for_axis_preceding_dimension [where A = ?A and D = ?D and axis = 1 and s = ?s
      and len = 1 and f = 2 and meth = "''average''" and pad_value = "Some ?V" and factor = 1]
  note u = slice_for_axis_preceding_dimension [where A = ?U and D = ?D and axis = 1 and s = ?s
      and len = 3 and f = 2 and meth = "''average''" and pad_value = None and factor = 1]
  have e1: "slice_axis ?A (1 - 1) ?s = Inr (NDArray [1, 2] [1, 2])" by code_simp
  have e2: "bind_err (pad_target ?A 1 1 None)
      (\<lambda>target. slice_axis target (1 - 1) (Slice (Some 0) (Some 1) None)) = Inr (NDArray [1, 3] [1, 2, 0])"
    by code_simp
  have e2v: "bind_err (pad_target ?A 1 1 (Some ?V))
      (\<lambda>target. slice_axis target (1 - 1) (Slice (Some 0) (Some 1) None)) = Inr (NDArray [1, 3] [1, 2, 7])"
    by code_simp
  have e3: "bind_err (repeat ?U 1 1) (\<lambda>target.
       bind_err (slice_axis ?U (1 - 1) (Slice (Some (- 1)) None None)) (\<lambda>last.
         bind_err (pad_target target 1 3 (Some last)) (\<lambda>padded.
           slice_axis padded (1 - 1) (Slice (Some 0) (Some 3) None))))
       = Inr (NDArray [1, 4] [1, 2, 1, 2])"
    by code_simp
  have e4: "bind_err (slice_axis ?D (1 - 1) (Slice (Some 0) (Some (int (shape ?D ! 1) div 2 * 2)) None))
       (\<lambda>source. downsample_reduce source 1 2 ''average'') = Inr (NDArray [2, 1] [3 / 2, 7 / 2])"
    by code_simp
  from t h have "getitem ?A (slice_for_axis (int 1) ?s) = slice_axis ?A (1 - 1) ?s"
    by blast
  moreover from t h hn have "pad ?A 1 1 None = bind_err (pad_target ?A 1 1 None)
      (\<lambda>target. slice_axis target (1 - 1) (Slice (Some 0) (Some 1) None))"
    by blast
  moreover from p h hv have "pad ?A 1 1 (Some ?V) = bind_err (pad_target ?A 1 1 (Some ?V))
      (\<lambda>target. slice_axis target (1 - 1) (Slice (Some 0) (Some 1) None))"
    by blast
  moreover from u hu have "upsample ?U 1 (of_int 1) ''nearest-neighbor'' (Some 3)
      = bind_err (repeat ?U 1 1) (\<lambda>target.
       bind_err (slice_axis ?U (1 - 1) (Slice (Some (- 1)) None None)) (\<lambda>last.
         bind_err (pad_target target 1 3 (Some last)) (\<lambda>padded.
           slice_axis padded (1 - 1) (Slice (Some 0) (Some 3) None))))"
    by blast
  moreover from t hd have "downsample ?D 1 (of_int 2) ''average''
      = bind_err (slice_axis ?D (1 - 1) (Slice (Some 0) (Some (int (shape ?D ! 1) div 2 * 2)) None))
          (\<lambda>source. downsample_reduce source 1 2 ''average'')"
    by blast
  ultimately show ?thesis
    unfolding e1 e2 e2v e3 e4 by simp
qed

text \<open>
  C2. \<open>pad\<close> on a 2 by 3 array along axis 1 with target length 2: the claim asks for a
  result of length 2 along axis 1 with axis 0 unchanged, the input truncated. The code
  appends one column of zeros and then slices dimension 0, so the result has length 4 along
  axis 1.
\<close>

theorem pad_axis1_failing_input:
  "pad (NDArray [2, 3] [1, 2, 3, 4, 5, 6 :: int]) 1 2 None
     = Inr (NDArray [2, 4] [1, 2, 3, 0, 4, 5, 6, 0])"
  by code_simp

text \<open>
  C5. Nearest-neighbor upsampling of a 3 by 1 array along axis 1 by the factor 2, then
  downsampling along axis 1 by 2 with the average: the claim asks for the input back. The
  truncation step of \<open>downsample\<close> cuts dimension 0 to the length 2 computed for axis 1,
  and the result is the 2 by 1 array of the first two rows.
\<close>

theorem downsample_upsample_axis1_failing_input:
  "bind_err (upsample (NDArray [3, 1] [1, 2, 3 :: rat]) 1 2 ''nearest-neighbor'' None)
     (\<lambda>u. downsample u 1 2 ''average'') = Inr (NDArray [2, 1] [1, 2])"
  by code_simp

text \<open>
  C9. \<open>chunked_time_reverse\<close> applied twice with the same chunk size is not the identity
  in general: there is an array whose time length is not a multiple of the chunk size and on
  which both applications return and the second result differs from the array.
  (The array 0, 1, ..., 6 with chunk size 3 gives 2, 1, 0, 5, 4, 3, 0 and then
  0, 1, 2, 3, 4, 5, 0.)
\<close>

theorem chunked_time_reverse_not_involution:
  "\<exists>(A :: int ndarray) C B B'.
      wf A \<and> ndim A = 1 \<and> 0 < C \<and> \<not> C dvd int (shape A ! 0)
      \<and> chunked_time_reverse A C = Inr B \<and> chunked_time_reverse B C = Inr B' \<and> B' \<noteq> A"
proof -
  let ?A = "NDArray [7] [0, 1, 2, 3, 4, 5, 6 :: int]"
  let ?B = "NDArray [7] [2, 1, 0, 5, 4, 3, 0 :: int]"
  let ?B' = "NDArray [7] [0, 1, 2, 3, 4, 5, 0 :: int]"
  have 1: "chunked_time_reverse ?A 3 = Inr ?B" by code_simp
  have 2: "chunked_time_reverse ?B 3 = Inr ?B'" by code_simp
  have 3: "wf ?A \<and> ndim ?A = 1 \<and> (0 :: int) < 3 \<and> \<not> (3 :: int) dvd int (shape ?A ! 0) \<and> ?B' \<noteq> ?A"
    by (simp add: wf_def ndim_def)
  show ?thesis using 1 2 3 by blast
qed

subsection \<open>class_idx_seq_to_1_of_k\<close>

lemma cast_int32_id:
  assumes "- (2 ^ 31) \<le> x" "x < 2 ^ 31"
  shows "cast_int32 x = x"
  using assms by (simp add: cast_int32_def sint_sbintrunc' signed_take_bit_int_eq_self)












lemma length_onehot [simp]: "length (onehot K c) = K"
  by (simp add: onehot_def)




subsection \<open>chunked_time_reverse\<close>

lemma concat_replicate_replicate: "concat (replicate n (replicate R x)) = replicate (n * R) x"
  by (induction n) (simp_all add: replicate_add)

lemma take_concat_uniform:
  assumes "\<And>r. r \<in> set rs \<Longrightarrow> length r = R"
  shows "take (T * R) (concat rs) = concat (take T rs)"
  using assms
proof (induction rs arbitrary: T)
  case Nil
  then show ?case by simp
next
  case (Cons r rs)
  show ?case
  proof (cases T)
    case 0
    then show ?thesis by simp
  next
    case (Suc U)
    have "length r = R" using Cons.prems by simp
    moreover have "take (U * R) (concat rs) = concat (take U rs)"
      using Cons.prems by (intro Cons.IH) simp
    ultimately show ?thesis using Suc by simp
  qed
qed

lemma default_pad_shape:
  assumes "shape a = T # r"
  shows "map (\<lambda>i. if i \<noteq> 0 then int (shape a ! i) else 1) [0..<ndim a] = map int (1 # r)"
proof (rule nth_equalityI)
  show "length (map (\<lambda>i. if i \<noteq> 0 then int (shape a ! i) else 1) [0..<ndim a])
      = length (map int (1 # r))"
    using assms by (simp add: ndim_def)
next
  fix i
  assume "i < length (map (\<lambda>i. if i \<noteq> 0 then int (shape a ! i) else 1) [0..<ndim a])"
  then have i: "i < Suc (length r)" using assms by (simp add: ndim_def)
  show "map (\<lambda>i. if i \<noteq> 0 then int (shape a ! i) else 1) [0..<ndim a] ! i = map int (1 # r) ! i"
  proof (cases i)
    case 0
    then show ?thesis using assms by (simp add: ndim_def del: upt_Suc)
  next
    case (Suc j)
    then have "j < length r" using i by simp
    then show ?thesis using assms Suc i by (simp add: ndim_def del: upt_Suc)
  qed
qed

lemma repeat_zeros_axis0:
  assumes "0 \<le> m"
  shows "repeat (NDArray (1 # r) (replicate (prod_list r) (0 :: 'a::zero))) m 0
     = Inr (NDArray (nat m # r) (replicate (nat m * prod_list r) 0))"
proof -
  let ?p = "NDArray (1 # r) (replicate (prod_list r) (0 :: 'a))"
  have idx: "concat (map (\<lambda>i. replicate (nat m) i) [0..<shape ?p ! 0]) = replicate (nat m) 0"
    by simp
  have d: "data (take_axis ?p 0 (replicate (nat m) 0)) = replicate (nat m * prod_list r) 0"
    by (simp add: take_axis_def Let_def outer_size_def inner_size_def map_replicate
          concat_replicate_replicate)
  have s: "shape (take_axis ?p 0 (replicate (nat m) 0)) = nat m # r" by simp
  have "take_axis ?p 0 (replicate (nat m) 0) = NDArray (nat m # r) (replicate (nat m * prod_list r) 0)"
    by (rule ndarray.expand) (simp only: d s ndarray.sel simp_thms)
  then show ?thesis
    unfolding repeat_def idx using assms by (simp add: ndim_def)
qed

lemma slice_for_axis_int0: "slice_for_axis (int 0) s = [s]"
  by (simp add: slice_for_axis_def)

lemma pad_axis0:
  fixes A :: "'a::zero ndarray"
  assumes "wf A" "shape A = T # r" "0 \<le> len" "len < 2 ^ 31"
  shows "pad A 0 len None
     = Inr (NDArray (nat len # r)
         (take (nat len * prod_list r)
            (data A @ replicate (nat (max (len - int T) 1) * prod_list r) 0)))"
proof -
  let ?R = "prod_list r" and ?m = "max (len - int T) 1"
  let ?pd = "NDArray (nat ?m # r) (replicate (nat ?m * ?R) (0 :: 'a))"
  let ?t = "NDArray ((T + nat ?m) # r) (data A @ replicate (nat ?m * ?R) 0)"
  have z: "(zeros (map (\<lambda>i. if i \<noteq> 0 then int (shape A ! i) else 1) [0..<ndim A]) :: error + 'a ndarray)
      = Inr (NDArray (1 # r) (replicate ?R 0))"
    unfolding default_pad_shape [OF assms(2)] zeros_nat by simp
  have c: "cast_int32 len = len"
    using assms(3,4) by (intro cast_int32_id) auto
  have nd: "\<not> ndim A \<le> 0" using assms(2) by (simp add: ndim_def)
  have rp: "repeat (NDArray (1 # r) (replicate ?R (0 :: 'a))) ?m 0 = Inr ?pd"
    by (rule repeat_zeros_axis0) simp
  have cc: "concatenate [A, ?pd] 0 = Inr ?t"
  proof -
    have "concatenate [A, ?pd] 0
        = Inr (NDArray (sum_list (map (\<lambda>b. hd (shape b)) [A, ?pd]) # r) (concat (map data [A, ?pd])))"
      using assms(1,2) by (intro concatenate_axis0) (auto simp: wf_def)
    then show ?thesis using assms(2) by simp
  qed
  have tgt: "pad_target A 0 len None = Inr ?t"
    unfolding pad_target_def option.case z bind_err_Inr
    using nd c rp cc assms(2) by (simp add: Let_def)
  have "min (nat len) (T + nat ?m) = nat len" by auto
  then have sl: "slice_axis ?t 0 (Slice (Some 0) (Some len) None)
      = Inr (take_axis ?t 0 [0..<nat len])"
    using assms(3) by (simp add: slice_axis_def slice_indices_prefix ndim_def)
  have "take_axis ?t 0 [0..<nat len]
      = NDArray (nat len # r) (take (nat len * ?R) (data ?t))"
    by (rule take_axis_0_prefix) simp
  then have "slice_axis ?t 0 (Slice (Some 0) (Some len) None)
      = Inr (NDArray (nat len # r) (take (nat len * ?R) (data A @ replicate (nat ?m * ?R) 0)))"
    unfolding sl by simp
  moreover have "pad A 0 len None = slice_axis ?t 0 (Slice (Some 0) (Some len) None)"
    unfolding pad_def tgt bind_err_Inr
    by (simp only: slice_for_axis_int0 getitem_def getitem_from_single)
  ultimately show ?thesis by simp
qed

lemma rows_of_padded:
  assumes "length d = T * R" "T \<le> n"
  shows "map (\<lambda>t. take R (drop (t * R) (d @ replicate ((n - T) * R) z))) [0..<n]
     = map (\<lambda>t. take R (drop (t * R) d)) [0..<T] @ replicate (n - T) (replicate R z)"
proof (rule nth_equalityI)
  show "length (map (\<lambda>t. take R (drop (t * R) (d @ replicate ((n - T) * R) z))) [0..<n])
      = length (map (\<lambda>t. take R (drop (t * R) d)) [0..<T] @ replicate (n - T) (replicate R z))"
    using assms(2) by simp
next
  fix i
  assume "i < length (map (\<lambda>t. take R (drop (t * R) (d @ replicate ((n - T) * R) z))) [0..<n])"
  then have i: "i < n" by simp
  have nR: "i * R + R \<le> n * R"
    using i by (metis Suc_leI mult_Suc mult_le_mono1 add.commute)
  show "map (\<lambda>t. take R (drop (t * R) (d @ replicate ((n - T) * R) z))) [0..<n] ! i
      = (map (\<lambda>t. take R (drop (t * R) d)) [0..<T] @ replicate (n - T) (replicate R z)) ! i"
  proof (cases "i < T")
    case True
    have "i * R + R \<le> T * R"
      using True by (metis Suc_leI mult_Suc mult_le_mono1 add.commute)
    then have "take R (drop (i * R) (d @ replicate ((n - T) * R) z)) = take R (drop (i * R) d)"
      using assms(1) by simp
    then show ?thesis using True i by (simp add: nth_append)
  next
    case False
    then have TR: "T * R \<le> i * R" by (simp add: mult_le_mono1)
    have "(n - T) * R = n * R - T * R" by (rule diff_mult_distrib)
    then have "take R (drop (i * R) (d @ replicate ((n - T) * R) z)) = replicate R z"
      using assms(1) TR nR by (simp add: min_def)
    then show ?thesis using False i by (simp add: nth_append)
  qed
qed

lemma chunk_of_rows:
  assumes "k < nc"
  shows "take c (drop (k * c) (map f [0..<nc * c])) = map (\<lambda>i. f (k * c + i)) [0..<c]"
proof -
  have b: "k * c + c \<le> nc * c"
    using assms by (metis Suc_leI mult_Suc mult_le_mono1 add.commute)
  have "take c (drop (k * c) [0..<nc * c]) = [k * c..<k * c + c]"
    using b by (simp add: take_upt)
  also have "\<dots> = map (\<lambda>i. i + k * c) [0..<c]"
    by (simp add: map_add_upt add.commute)
  finally have "take c (drop (k * c) [0..<nc * c]) = map (\<lambda>i. i + k * c) [0..<c]" .
  then have "take c (drop (k * c) (map f [0..<nc * c])) = map f (map (\<lambda>i. i + k * c) [0..<c])"
    by (simp add: take_map drop_map)
  then show ?thesis by (simp add: comp_def add.commute)
qed

lemma needed_time_bounds:
  assumes "0 < (c :: nat)"
  shows "T \<le> (T + c - 1) div c * c"
proof -
  have "(T + c - 1) div c * c + (T + c - 1) mod c = T + c - 1" by simp
  moreover have "(T + c - 1) mod c < c" using assms by simp
  ultimately show ?thesis by linarith
qed

lemma concat_concat_eq: "concat (concat xss) = concat (map concat xss)"
  by (induction xss) simp_all

lemma remaining_dims_eq:
  assumes "shape a = T # r"
  shows "map (\<lambda>i. int (shape a ! (i + 1))) [0..<ndim a - 1] = map int r"
  using assms by (intro nth_equalityI) (simp_all add: ndim_def)

lemma reverse_axis1:
  assumes "wf a" "shape a = nc # c # r"
  shows "getitem a [Slice None None None, Slice None None (Some (- 1))]
     = Inr (NDArray (nc # c # r)
         (concat (map (\<lambda>blk. concat (map (\<lambda>i. take (prod_list r) (drop ((blk * c + i) * prod_list r) (data a)))
                                          (rev [0..<c])))
            [0..<nc])))"
proof -
  have n0: "\<not> ndim a \<le> 0" and n1: "\<not> ndim a \<le> Suc 0"
    using assms(2) by (simp_all add: ndim_def)
  have all: "take_axis a 0 [0..<shape a ! 0] = a"
    using assms by (intro take_axis_all) (simp_all add: ndim_def)
  have s0: "shape a ! 0 = nc" and s1: "shape a ! Suc 0 = c"
    using assms(2) by simp_all
  have v: "take_axis a (Suc 0) (rev [0..<c])
      = NDArray (nc # c # r)
         (concat (map (\<lambda>blk. concat (map (\<lambda>i. take (prod_list r) (drop ((blk * c + i) * prod_list r) (data a)))
                                          (rev [0..<c])))
            [0..<nc]))"
    using assms(2) by (simp add: take_axis_def Let_def outer_size_def inner_size_def)
  have "getitem_from 0 a [Slice None None None, Slice None None (Some (- 1))]
      = getitem_from (Suc 0) a [Slice None None (Some (- 1))]"
    using n0 all by (simp add: slice_indices_all s0 [symmetric])
  also have "\<dots> = Inr (take_axis a (Suc 0) (rev [0..<c]))"
    using n1 by (simp add: slice_indices_reverse s1)
  finally show ?thesis by (simp add: getitem_def v)
qed

lemma time_prefix:
  assumes "shape a = n # r" "T \<le> n"
  shows "getitem a [Slice None (Some (int T)) None]
     = Inr (NDArray (T # r) (take (T * prod_list r) (data a)))"
proof -
  have "min (nat (int T)) n = T" using assms(2) by simp
  then have "slice_axis a 0 (Slice None (Some (int T)) None) = Inr (take_axis a 0 [0..<T])"
    using assms(1) slice_indices_prefix(2) [of "int T" n]
    by (simp add: slice_axis_def ndim_def)
  then show ?thesis
    unfolding getitem_def getitem_from_single take_axis_0_prefix [OF assms(1)] .
qed

lemma chunked_time_reverse_nat:
  fixes A :: "'a::zero ndarray"
  assumes "wf A" "shape A = T # r" "0 < c" "int c < 2 ^ 31"
    and "int ((T + c - 1) div c * c) < 2 ^ 31"
  shows "chunked_time_reverse A (int c) = Inr (chunked_time_reverse_spec A c)"
proof -
  define R where "R = prod_list r"
  define nc where "nc = (T + c - 1) div c"
  define n where "n = nc * c"
  define pd where "pd = data A @ replicate ((n - T) * R) (0 :: 'a)"
  define \<rho> where "\<rho> t = take R (drop (t * R) pd)" for t
  define LL where "LL = map (\<lambda>blk. map (\<lambda>i. \<rho> (blk * c + i)) (rev [0..<c])) [0..<nc]"
  have Tn: "T \<le> n" unfolding n_def nc_def using assms(3) by (rule needed_time_bounds)
  have lenA: "length (data A) = T * R"
    using assms(1,2) by (simp add: wf_def R_def)
  have lenpd: "length pd = n * R"
    using Tn lenA by (simp add: pd_def diff_mult_distrib mult_le_mono1)
  \<comment> \<open>the integer quantities of the function\<close>
  have cc: "cast_int32 (int c) = int c"
    using assms(4) by (intro cast_int32_id) auto
  have "int T + int c - 1 = int (T + c - 1)" using assms(3) by simp
  then have nci: "(int T + int c - 1) div int c = int nc"
    unfolding nc_def by (simp only: zdiv_int)
  have ni: "int nc * int c = int n" by (simp add: n_def)
  have nd: "\<not> ndim A = 0" using assms(2) by (simp add: ndim_def)
  have c0: "\<not> int c = 0" using assms(3) by simp
  have s0: "shape A ! 0 = T" using assms(2) by simp
  \<comment> \<open>the padded source\<close>
  have "pad A 0 (int n) None
      = Inr (NDArray (nat (int n) # r)
          (take (nat (int n) * prod_list r)
             (data A @ replicate (nat (max (int n - int T) 1) * prod_list r) 0)))"
    using assms(1,2,5) by (intro pad_axis0) (simp_all add: n_def nc_def)
  moreover have "take (n * R) (data A @ replicate (nat (max (int n - int T) 1) * R) 0) = pd"
  proof -
    have "n - T \<le> nat (max (int n - int T) 1)" by auto
    then have "(n - T) * R \<le> nat (max (int n - int T) 1) * R" by (rule mult_le_mono1)
    moreover have "n * R - T * R = (n - T) * R" by (simp add: diff_mult_distrib)
    ultimately show ?thesis
      using lenA Tn by (simp add: pd_def min_def mult_le_mono1)
  qed
  ultimately have padded: "pad A 0 (int n) None = Inr (NDArray (n # r) pd)"
    by (simp add: R_def)
  \<comment> \<open>reshape into chunks, reverse, reshape\<close>
  have r1: "reshape (NDArray (n # r) pd) (map int (nc # c # r)) = Inr (NDArray (nc # c # r) pd)"
    unfolding reshape_nat using lenpd by (simp add: n_def R_def)
  have wfc: "wf (NDArray (nc # c # r) pd)"
    using lenpd by (simp add: wf_def n_def R_def)
  have rv: "getitem (NDArray (nc # c # r) pd) [Slice None None None, Slice None None (Some (- 1))]
      = Inr (NDArray (nc # c # r) (concat (map concat LL)))"
    using reverse_axis1 [OF wfc, of nc c r]
    by (simp add: LL_def \<rho>_def R_def comp_def)
  have rowlen: "length row = R" if "row \<in> set (concat LL)" for row
  proof -
    from that obtain blk i where "blk < nc" "i < c" "row = \<rho> (blk * c + i)"
      by (auto simp: LL_def)
    moreover have "(blk * c + i) * R + R \<le> nc * (c * R)"
      using \<open>blk < nc\<close> \<open>i < c\<close> by (rule block_bound)
    ultimately show ?thesis using lenpd by (simp add: \<rho>_def n_def)
  qed
  have lenv: "length (concat (map concat LL)) = n * R"
  proof -
    have "length (concat LL) = n"
      by (simp add: LL_def n_def length_concat comp_def sum_list_triv)
    moreover have "concat (map concat LL) = concat (concat LL)"
      by (rule concat_concat_eq [symmetric])
    moreover have "length (concat (map (\<lambda>x. x) (concat LL))) = length (concat LL) * R"
      using rowlen by (intro length_concat_uniform) simp
    ultimately show ?thesis by simp
  qed
  have r2: "reshape (NDArray (nc # c # r) (concat (map concat LL))) (map int (n # r))
      = Inr (NDArray (n # r) (concat (map concat LL)))"
    unfolding reshape_nat using lenv by (simp add: R_def)
  have tp: "getitem (NDArray (n # r) (concat (map concat LL))) [Slice None (Some (int T)) None]
      = Inr (NDArray (T # r) (take (T * R) (concat (map concat LL))))"
    using time_prefix [of "NDArray (n # r) (concat (map concat LL))" n r T] Tn
    by (simp add: R_def)
  have code: "chunked_time_reverse A (int c)
      = Inr (NDArray (T # r) (take (T * R) (concat (map concat LL))))"
  proof -
    have shapes: "[int nc, int c] @ map int r = map int (nc # c # r)"
      "[int n] @ map int r = map int (n # r)" by simp_all
    show ?thesis
      unfolding chunked_time_reverse_def Let_def cc remaining_dims_eq [OF assms(2)] s0 nci ni
        shapes
      using nd c0 by (simp only: if_False padded bind_err_Inr r1 rv r2 tp)
  qed
  \<comment> \<open>the same rows, as the description has them\<close>
  have rows: "time_rows A @ replicate (n - T) (replicate R 0) = map \<rho> [0..<n]"
  proof -
    have "map \<rho> [0..<n]
        = map (\<lambda>t. take R (drop (t * R) (data A))) [0..<T] @ replicate (n - T) (replicate R 0)"
      unfolding \<rho>_def pd_def using lenA Tn by (rule rows_of_padded)
    then show ?thesis using assms(2) by (simp add: time_rows_def Let_def R_def)
  qed
  have chunks: "map rev (map (\<lambda>k. take c (drop (k * c) (map \<rho> [0..<n]))) [0..<nc]) = LL"
  proof -
    have "map (\<lambda>k. rev (take c (drop (k * c) (map \<rho> [0..<nc * c])))) [0..<nc]
        = map (\<lambda>blk. map (\<lambda>i. \<rho> (blk * c + i)) (rev [0..<c])) [0..<nc]"
    proof (rule map_cong [OF refl])
      fix k assume "k \<in> set [0..<nc]"
      then have "k < nc" by simp
      then have "take c (drop (k * c) (map \<rho> [0..<nc * c])) = map (\<lambda>i. \<rho> (k * c + i)) [0..<c]"
        by (rule chunk_of_rows)
      then show "rev (take c (drop (k * c) (map \<rho> [0..<nc * c])))
          = map (\<lambda>i. \<rho> (k * c + i)) (rev [0..<c])"
        by (simp add: rev_map)
    qed
    then show ?thesis by (simp add: LL_def n_def comp_def)
  qed
  have "take (T * R) (concat (map concat LL)) = take (T * R) (concat (concat LL))"
    by (simp add: concat_concat_eq)
  also have "\<dots> = concat (take T (concat LL))"
    using rowlen by (rule take_concat_uniform)
  finally have data_eq: "take (T * R) (concat (map concat LL)) = concat (take T (concat LL))" .
  have "chunked_time_reverse_spec A c = NDArray (T # r) (concat (take T (concat LL)))"
    unfolding chunked_time_reverse_spec_def Let_def
    using assms(2) rows chunks by (simp add: R_def nc_def n_def)
  then show ?thesis using code data_eq by simp
qed

text \<open>
  C3. \<open>chunked_time_reverse_spec\<close> is the description of the claim: zero-pad the time axis
  up to the next multiple of the chunk size, reverse the order of the rows within each
  consecutive chunk, truncate to the original time length; the shape is that of the input.
  For every well-formed array with at least one dimension and every positive chunk size
  \<open>C\<close> such that \<open>C\<close> and the padded time length are below \<open>2 ^ 31\<close> (the function casts
  both to 32-bit integers), chunked_time_reverse returns exactly that array. On the time
  axis 0, 1, ..., 6 with chunk size 3 it returns 2, 1, 0, 5, 4, 3, 0.
\<close>

theorem chunked_time_reverse_refines:
  fixes A :: "'a::zero ndarray"
  assumes "wf A" and "1 \<le> ndim A" and "0 < C" and "C < 2 ^ 31"
    and "(int (shape A ! 0) + C - 1) div C * C < 2 ^ 31"
  shows "chunked_time_reverse A C = Inr (chunked_time_reverse_spec A (nat C))
     \<and> shape (chunked_time_reverse_spec A (nat C)) = shape A"
proof -
  from assms(2) obtain T r where s: "shape A = T # r"
    by (cases "shape A") (auto simp: ndim_def)
  define c where "c = nat C"
  have C: "C = int c" and c0: "0 < c" using assms(3) by (simp_all add: c_def)
  have "int T + int c - 1 = int (T + c - 1)" using c0 by simp
  then have e1: "(int T + int c - 1) div int c = int ((T + c - 1) div c)"
    by (simp only: zdiv_int)
  have a5: "(int T + int c - 1) div int c * int c < 2 ^ 31"
    using assms(5) s C by simp
  have b: "int ((T + c - 1) div c * c) < 2 ^ 31"
    unfolding of_nat_mult e1 [symmetric] using a5 .
  have "chunked_time_reverse A (int c) = Inr (chunked_time_reverse_spec A c)"
    using assms(1) s c0 _ b by (rule chunked_time_reverse_nat) (use assms(4) C in simp)
  moreover have "shape (chunked_time_reverse_spec A c) = shape A"
    by (simp add: chunked_time_reverse_spec_def Let_def)
  ultimately show ?thesis unfolding C by simp
qed

theorem chunked_time_reverse_refines_witness:
  "chunked_time_reverse (NDArray [7] [0, 1, 2, 3, 4, 5, 6 :: int]) 3
     = Inr (NDArray [7] [2, 1, 0, 5, 4, 3, 0])"
proof -
  let ?A = "NDArray [7] [0, 1, 2, 3, 4, 5, 6 :: int]"
  have h: "wf ?A" "1 \<le> ndim ?A" "(0 :: int) < 3" "(3 :: int) < 2 ^ 31"
    "(int (shape ?A ! 0) + 3 - 1) div 3 * 3 < 2 ^ 31"
    by (simp_all add: wf_def ndim_def)
  have e: "chunked_time_reverse_spec ?A (nat 3) = NDArray [7] [2, 1, 0, 5, 4, 3, 0]"
    by code_simp
  from chunked_time_reverse_refines [OF h] show ?thesis
    unfolding e by simp
qed

text \<open>
  Beyond 32 bits the chunk size wraps around: \<open>2 ^ 32 + 3\<close> is cast to 3. On the time axis
  0, 1, ..., 6 the function then reverses chunks of length 3, whereas one chunk of length
  \<open>2 ^ 32 + 3\<close>, zero-padded and reversed, starts with zeros.
\<close>

lemma chunked_time_reverse_spec_one_chunk:
  assumes "14 \<le> c"
  shows "chunked_time_reverse_spec (NDArray [7] [0, 1, 2, 3, 4, 5, 6 :: int]) c
     = NDArray [7] [0, 0, 0, 0, 0, 0, 0]"
proof -
  let ?A = "NDArray [7] [0, 1, 2, 3, 4, 5, 6 :: int]"
  have nc: "(7 + c - 1) div c = 1"
    using assms by (intro div_nat_eqI) auto
  have rows: "time_rows ?A = [[0], [1], [2], [3], [4], [5], [6]]"
    by code_simp
  let ?p = "time_rows ?A @ replicate (c - 7) [0 :: int]"
  have len: "length ?p = c" using assms by (simp add: rows)
  have "rev ?p = replicate (c - 7) [0] @ rev (time_rows ?A)" by simp
  moreover have "take 7 (replicate (c - 7) [0 :: int]) = replicate 7 [0]"
    using assms by simp
  ultimately have "take 7 (rev ?p) = replicate 7 [0]"
    using assms by simp
  then have "concat (take 7 (rev ?p)) = [0, 0, 0, 0, 0, 0, 0]"
    by (simp add: numeral_eq_Suc)
  then show ?thesis
    unfolding chunked_time_reverse_spec_def Let_def
    using nc len by simp
qed

theorem chunked_time_reverse_counterexample:
  "chunked_time_reverse (NDArray [7] [0, 1, 2, 3, 4, 5, 6 :: int]) (2 ^ 32 + 3)
     = Inr (NDArray [7] [2, 1, 0, 5, 4, 3, 0])
   \<and> chunked_time_reverse_spec (NDArray [7] [0, 1, 2, 3, 4, 5, 6 :: int]) (nat (2 ^ 32 + 3))
     = NDArray [7] [0, 0, 0, 0, 0, 0, 0]
   \<and> chunked_time_reverse (NDArray [7] [0, 1, 2, 3, 4, 5, 6 :: int]) (2 ^ 32 + 3)
     \<noteq> Inr (chunked_time_reverse_spec (NDArray [7] [0, 1, 2, 3, 4, 5, 6 :: int]) (nat (2 ^ 32 + 3)))"
proof -
  have 1: "chunked_time_reverse (NDArray [7] [0, 1, 2, 3, 4, 5, 6 :: int]) (2 ^ 32 + 3)
     = Inr (NDArray [7] [2, 1, 0, 5, 4, 3, 0])"
    by code_simp
  have "(14 :: nat) \<le> nat (2 ^ 32 + 3)" by simp
  then have 2: "chunked_time_reverse_spec (NDArray [7] [0, 1, 2, 3, 4, 5, 6 :: int]) (nat (2 ^ 32 + 3))
     = NDArray [7] [0, 0, 0, 0, 0, 0, 0]"
    by (rule chunked_time_reverse_spec_one_chunk)
  show ?thesis unfolding 1 2 by simp
qed




end
